theory Spec2Isabelle
  imports Complex_Main "HOL-Library.Word"
begin

section \<open>Element values\<close>

text \<open>
  A floating-point element is a finite value or one of the three IEEE special values.
  The kernels of \<^verbatim>\<open>nan_inf_utils_detail.cu\<close> only classify elements
  (\<^verbatim>\<open>isnan\<close>, \<^verbatim>\<open>isinf\<close>) and, in the scan kernel, subtract and add them.
\<close>

datatype fp = Fin rat | PInf | NInf | NaN

fun isnan :: "fp \<Rightarrow> bool" where
  "isnan NaN = True"
| "isnan _ = False"

fun isinf :: "fp \<Rightarrow> bool" where
  "isinf PInf = True"
| "isinf NInf = True"
| "isinf _ = False"

text \<open>
  \<^verbatim>\<open>isnan(val[i])\<close> on an \<^verbatim>\<open>int64_t\<close> element converts the integer to
  \<^verbatim>\<open>double\<close> first; every 64-bit integer converts to a finite double.
\<close>

definition int64_to_fp :: "64 word \<Rightarrow> fp" where
  "int64_to_fp w = Fin (of_int (sint w))"

type_synonym u32 = "32 word"

section \<open>CountNanInfNumKernel\<close>

text \<open>
  Thread and block indices are natural numbers. The source computes the flat index and the
  stride in 32-bit unsigned arithmetic; with the 1024 threads and at most 128 blocks of
  every launch in this file they stay below \<open>2 ^ 17 + 1\<close>, far from wrapping. Buffer
  lengths come from \<^verbatim>\<open>tensor.numel()\<close>, a non-negative \<^verbatim>\<open>int64_t\<close>.
\<close>

text \<open>
  One thread of the count kernel, between the two barriers: the thread with flat index
  \<^verbatim>\<open>i = blockIdx.x * blockDim.x + threadIdx.x\<close> tests the single element \<^verbatim>\<open>val[i]\<close>
  when \<^verbatim>\<open>i < len\<close> and bumps one of the two block-shared counters atomically.
  The pair is \<^verbatim>\<open>(block_nan, block_inf)\<close>; \<open>conv\<close> is the conversion of the element
  type \<^verbatim>\<open>T\<close> to the argument of \<^verbatim>\<open>isnan\<close>/\<^verbatim>\<open>isinf\<close>.
\<close>

definition count_thread ::
  "('a \<Rightarrow> fp) \<Rightarrow> nat \<Rightarrow> 'a list \<Rightarrow> nat \<Rightarrow> nat \<Rightarrow> nat \<Rightarrow> u32 \<times> u32 \<Rightarrow> u32 \<times> u32" where
  "count_thread conv len val blockDim blockIdx threadIdx sh =
     (let i = blockIdx * blockDim + threadIdx in
      if i < len then
        (if isnan (conv (val ! i)) then (fst sh + 1, snd sh)
         else if isinf (conv (val ! i)) then (fst sh, snd sh + 1)
         else sh)
      else sh)"

text \<open>
  One block: thread 0 zeroes the shared counters, all threads of the block run
  (the atomic increments commute, so the threads are taken in index order), and
  after the second barrier thread 0 adds the block's counters to the global ones \<^verbatim>\<open>(*nan_num, *inf_num)\<close>.
\<close>

definition count_block ::
  "('a \<Rightarrow> fp) \<Rightarrow> nat \<Rightarrow> 'a list \<Rightarrow> nat \<Rightarrow> nat \<Rightarrow> u32 \<times> u32 \<Rightarrow> u32 \<times> u32" where
  "count_block conv len val blockDim blockIdx g =
     (let sh = fold (count_thread conv len val blockDim blockIdx) [0..<blockDim] (0, 0)
      in (fst g + fst sh, snd g + snd sh))"

definition CountNanInfNumKernel ::
  "('a \<Rightarrow> fp) \<Rightarrow> nat \<Rightarrow> nat \<Rightarrow> nat \<Rightarrow> 'a list \<Rightarrow> u32 \<times> u32 \<Rightarrow> u32 \<times> u32" where
  "CountNanInfNumKernel conv gridDim blockDim len val g =
     fold (count_block conv len val blockDim) [0..<gridDim] g"

section \<open>CudaTensorCheckNanInf\<close>

datatype tensor_data =
    FP32 "fp list"
  | FP64 "fp list"
  | INT64 "64 word list"
  | OtherType nat

fun tensor_numel :: "tensor_data \<Rightarrow> nat" where
  "tensor_numel (FP32 xs) = length xs"
| "tensor_numel (FP64 xs) = length xs"
| "tensor_numel (INT64 xs) = length xs"
| "tensor_numel (OtherType n) = n"

record tensor =
  place_device :: int
  data :: tensor_data

text \<open>
  The outcome of the calls into the CUDA runtime and the allocator, which the function
  checks with \<^verbatim>\<open>PADDLE_ENFORCE_CUDA_SUCCESS\<close> (a failed call raises).
\<close>

record cuda_env =
  alloc_ok :: bool
  memset_ok :: bool
  memcpy_ok :: bool
  sync_ok :: bool

text \<open>
  Modelled from the spec: the host-side enforce macros and the constructors of
  \<^verbatim>\<open>platform::errors\<close> are defined outside this file. The specification makes a failed
  check fatal to the operation and surfaces it with its message, so an error carries the
  message built from the format string and its arguments.
\<close>

datatype error =
    AllocFailed
  | CudaCallFailed string
  | NotFound string
  | OutOfRange string
  | StdOutOfRange
  | PreconditionNotMet string

text \<open>
  What \<^verbatim>\<open>printf\<close> writes, and the device-side \<^verbatim>\<open>PADDLE_ENFORCE(false, ...)\<close>:
  each event carries the values that its format string shows, in order. The element of
  \<open>PrintElem\<close> is the one printed, after the cast to \<^verbatim>\<open>float\<close>. The last number of
  \<open>PrintSummary\<close> is what \<^verbatim>\<open>%u\<close> shows of the \<^verbatim>\<open>size_t\<close> length: its low 32 bits.
\<close>

type_synonym dev_ptr = nat

datatype event =
    PrintElem nat nat fp
  | PrintBlock nat u32 u32 u32
  | EnforceFail dev_ptr
  | PrintSummary int string string u32 u32 nat

record check_result =
  ret :: bool
  nan_inf_num :: "(u32 \<times> u32) option"
  launch :: "(nat \<times> nat) option"
  printed :: "event list"

definition threads :: nat where
  "threads = 1024"

definition blocks_of :: "nat \<Rightarrow> nat" where
  "blocks_of len = min 128 ((len + threads - 1) div threads)"

text \<open>
  The kernel selected by \<^verbatim>\<open>tensor.type()\<close>, run on the zeroed counters; \<open>None\<close> is
  the final \<^verbatim>\<open>else\<close> branch, which launches nothing.
\<close>

fun count_launch :: "tensor_data \<Rightarrow> nat \<Rightarrow> nat \<Rightarrow> (u32 \<times> u32) option" where
  "count_launch (FP32 xs) blocks len =
     Some (CountNanInfNumKernel (\<lambda>x. x) blocks threads len xs (0, 0))"
| "count_launch (INT64 xs) blocks len =
     Some (CountNanInfNumKernel int64_to_fp blocks threads len xs (0, 0))"
| "count_launch (FP64 xs) blocks len =
     Some (CountNanInfNumKernel (\<lambda>x. x) blocks threads len xs (0, 0))"
| "count_launch (OtherType n) blocks len = None"

definition CudaTensorCheckNanInf ::
  "cuda_env \<Rightarrow> string \<Rightarrow> string \<Rightarrow> tensor \<Rightarrow> error + check_result" where
  "CudaTensorCheckNanInf env op_type var_name tensor =
     (let dev_id = place_device tensor in
      if \<not> alloc_ok env then Inl AllocFailed
      else if \<not> memset_ok env then Inl (CudaCallFailed ''cudaMemsetAsync'')
      else
        let len = tensor_numel (data tensor);
            blocks = blocks_of len
        in case count_launch (data tensor) blocks len of
             None \<Rightarrow>
               Inr \<lparr>ret = False, nan_inf_num = None, launch = None, printed = []\<rparr>
           | Some num \<Rightarrow>
               if \<not> memcpy_ok env then Inl (CudaCallFailed ''cudaMemcpyAsync'')
               else if \<not> sync_ok env then Inl (CudaCallFailed ''cudaStreamSynchronize'')
               else if 0 < fst num \<or> 0 < snd num then
                 Inr \<lparr>ret = True, nan_inf_num = Some num, launch = Some (blocks, threads),
                      printed = [PrintSummary dev_id op_type var_name (fst num) (snd num)
                                   (len mod 2 ^ 32)]\<rparr>
               else
                 Inr \<lparr>ret = False, nan_inf_num = Some num, launch = Some (blocks, threads),
                      printed = []\<rparr>)"

section \<open>Floating-point arithmetic of the scan kernel\<close>

text \<open>
  IEEE addition and subtraction. The special values combine as the standard says
  (\<open>Inf - Inf = NaN\<close>, NaN propagates); on two finite operands the exact result is
  rounded to the element format by \<open>rnd\<close>, which may overflow to an infinity. The
  rounding function is a parameter: \<^verbatim>\<open>float\<close> and \<^verbatim>\<open>double\<close> differ only in it.
\<close>

fun fneg :: "fp \<Rightarrow> fp" where
  "fneg (Fin a) = Fin (- a)"
| "fneg PInf = NInf"
| "fneg NInf = PInf"
| "fneg NaN = NaN"

fun fadd :: "(rat \<Rightarrow> fp) \<Rightarrow> fp \<Rightarrow> fp \<Rightarrow> fp" where
  "fadd rnd (Fin a) (Fin b) = rnd (a + b)"
| "fadd rnd NaN y = NaN"
| "fadd rnd x NaN = NaN"
| "fadd rnd PInf NInf = NaN"
| "fadd rnd NInf PInf = NaN"
| "fadd rnd PInf y = PInf"
| "fadd rnd NInf y = NInf"
| "fadd rnd x PInf = PInf"
| "fadd rnd x NInf = NInf"

definition fsub :: "(rat \<Rightarrow> fp) \<Rightarrow> fp \<Rightarrow> fp \<Rightarrow> fp" where
  "fsub rnd x y = fadd rnd x (fneg y)"

text \<open>
  \<^verbatim>\<open>static_cast<float>\<close> of a \<^verbatim>\<open>double\<close>: a finite value is rounded to the
  \<^verbatim>\<open>float\<close> format, so it may become an infinity; the special values stay.
\<close>

fun cast_float :: "(rat \<Rightarrow> fp) \<Rightarrow> fp \<Rightarrow> fp" where
  "cast_float rnd (Fin r) = rnd r"
| "cast_float rnd x = x"

text \<open>A rounding that keeps every value up to \<open>fmax\<close> and overflows beyond it.\<close>

definition overflow_round :: "rat \<Rightarrow> rat \<Rightarrow> fp" where
  "overflow_round fmax r = (if fmax < r then PInf else if r < - fmax then NInf else Fin r)"

section \<open>CheckNanInfKernel\<close>

text \<open>
  The stride loop of one thread:
  \<^verbatim>\<open>for (size_t i = tid; i < numel; i += blockDim.x * gridDim.x) sum += (value[i] - value[i]);\<close>
  The loop does not end when the stride is 0, so it is a partial function.
\<close>

partial_function (option) scan_loop ::
  "(rat \<Rightarrow> fp) \<Rightarrow> fp list \<Rightarrow> nat \<Rightarrow> nat \<Rightarrow> nat \<Rightarrow> fp \<Rightarrow> fp option" where
  "scan_loop rnd vals numel stride i acc =
     (if i < numel
      then scan_loop rnd vals numel stride (i + stride)
             (fadd rnd acc (fsub rnd (vals ! i) (vals ! i)))
      else Some acc)"

text \<open>Whether the thread writes \<^verbatim>\<open>has_nan_inf = true\<close> after its loop.\<close>

definition scan_thread ::
  "(rat \<Rightarrow> fp) \<Rightarrow> fp list \<Rightarrow> nat \<Rightarrow> nat \<Rightarrow> nat \<Rightarrow> nat \<Rightarrow> nat \<Rightarrow> bool option" where
  "scan_thread rnd vals numel blockDim gridDim blockIdx threadIdx =
     map_option (\<lambda>s. isnan s \<or> isinf s)
       (scan_loop rnd vals numel (blockDim * gridDim) (threadIdx + blockIdx * blockDim) (Fin 0))"

text \<open>
  The value of the block-shared \<^verbatim>\<open>has_nan_inf\<close> at the second barrier: thread 0 clears
  it before the first barrier, and every write after that stores \<^verbatim>\<open>true\<close>.
\<close>

definition scan_block ::
  "(rat \<Rightarrow> fp) \<Rightarrow> fp list \<Rightarrow> nat \<Rightarrow> nat \<Rightarrow> nat \<Rightarrow> nat \<Rightarrow> bool option" where
  "scan_block rnd vals numel blockDim gridDim blockIdx =
     map_option (list_ex (\<lambda>f. f))
       (those (map (scan_thread rnd vals numel blockDim gridDim blockIdx) [0..<blockDim]))"

section \<open>PrintNanInfKernel\<close>

text \<open>
  The reporter has no barrier: both \<^verbatim>\<open>__syncthreads;\<close> statements lack the call
  parentheses and synchronise nothing. So the threads of a block interleave freely, and a
  run of the block is given by a schedule, the list of thread indices in the order in which
  they take their next step. A thread is at its initialisation, in its loop at index
  \<open>i\<close>, at the final report, or finished.
\<close>

datatype pc = AtInit | AtLoop nat | AtTally | Finished

record reporter_state =
  nan_count :: u32
  inf_count :: u32
  num_count :: u32
  pcs :: "nat \<Rightarrow> pc"
  out :: "event list"
  trapped :: bool

text \<open>
  One loop iteration at index \<open>i\<close>: the atomic add returns the old counter, and the
  element is printed when that old value is below \<^verbatim>\<open>print_num\<close> (an \<^verbatim>\<open>int\<close>,
  converted to unsigned for the comparison). The value printed is
  \<^verbatim>\<open>static_cast<float>(value[i])\<close>; \<open>cast\<close> is that conversion for the element type.
\<close>

definition print_visit ::
  "(fp \<Rightarrow> fp) \<Rightarrow> fp list \<Rightarrow> nat \<Rightarrow> int \<Rightarrow> nat \<Rightarrow> reporter_state \<Rightarrow> reporter_state" where
  "print_visit cast vals numel print_num i s =
     (let (count, s1) =
            (if isnan (vals ! i) then (nan_count s, s\<lparr>nan_count := nan_count s + 1\<rparr>)
             else if isinf (vals ! i) then (inf_count s, s\<lparr>inf_count := inf_count s + 1\<rparr>)
             else (num_count s, s\<lparr>num_count := num_count s + 1\<rparr>))
      in if count < word_of_int print_num
         then s1\<lparr>out := out s1 @ [PrintElem numel i (cast (vals ! i))]\<rparr>
         else s1)"

text \<open>
  Modelled from the spec: the device-side \<^verbatim>\<open>PADDLE_ENFORCE\<close> macro is defined outside
  this file. The specification says that the reporter raises a fatal diagnostic naming the
  operator and variable, taken from the device label, and that this path is a hard stop:
  \<^verbatim>\<open>PADDLE_ENFORCE(false, ...)\<close> prints its message with \<^verbatim>\<open>debug_info\<close> and stops the
  kernel, so that no thread steps after it.
\<close>

definition device_enforce_false :: "dev_ptr \<Rightarrow> reporter_state \<Rightarrow> reporter_state" where
  "device_enforce_false debug_info s =
     s\<lparr>out := out s @ [EnforceFail debug_info], trapped := True\<rparr>"

text \<open>
  The next step of thread \<open>threadIdx\<close> of block \<open>blockIdx\<close>; a step is one statement
  of the thread. Every thread evaluates the guarded initialisation, which only thread 0
  performs, then runs its stride loop, and thread 0 ends with the tally and the enforce.
\<close>

definition print_step ::
  "(fp \<Rightarrow> fp) \<Rightarrow> fp list \<Rightarrow> nat \<Rightarrow> int \<Rightarrow> dev_ptr \<Rightarrow> nat \<Rightarrow> nat \<Rightarrow> nat \<Rightarrow> nat
     \<Rightarrow> reporter_state \<Rightarrow> reporter_state" where
  "print_step cast vals numel print_num debug_info blockDim gridDim blockIdx threadIdx s =
     (if trapped s \<or> blockDim \<le> threadIdx then s
      else case pcs s threadIdx of
        AtInit \<Rightarrow>
          (let s1 = (if threadIdx = 0
                     then s\<lparr>nan_count := 0, inf_count := 0, num_count := 0\<rparr> else s)
           in s1\<lparr>pcs := (pcs s1)(threadIdx := AtLoop (threadIdx + blockIdx * blockDim))\<rparr>)
      | AtLoop i \<Rightarrow>
          (if i < numel
           then (print_visit cast vals numel print_num i s)
                  \<lparr>pcs := (pcs s)(threadIdx := AtLoop (i + blockDim * gridDim))\<rparr>
           else s\<lparr>pcs := (pcs s)(threadIdx := AtTally)\<rparr>)
      | AtTally \<Rightarrow>
          (if threadIdx = 0
           then (device_enforce_false debug_info
                   (s\<lparr>out := out s @
                              [PrintBlock blockIdx (nan_count s) (inf_count s) (num_count s)]\<rparr>))
                  \<lparr>pcs := (pcs s)(threadIdx := Finished)\<rparr>
           else s\<lparr>pcs := (pcs s)(threadIdx := Finished)\<rparr>)
      | Finished \<Rightarrow> s)"

text \<open>
  The shared counters are uninitialised when the block enters the reporter: \<open>shared0\<close>
  is whatever the shared memory holds.
\<close>

definition print_init :: "u32 \<times> u32 \<times> u32 \<Rightarrow> reporter_state" where
  "print_init shared0 =
     \<lparr>nan_count = fst shared0, inf_count = fst (snd shared0), num_count = snd (snd shared0),
      pcs = (\<lambda>t. AtInit), out = [], trapped = False\<rparr>"

definition PrintNanInfKernel ::
  "(fp \<Rightarrow> fp) \<Rightarrow> fp list \<Rightarrow> nat \<Rightarrow> int \<Rightarrow> dev_ptr \<Rightarrow> nat \<Rightarrow> nat \<Rightarrow> nat \<Rightarrow> u32 \<times> u32 \<times> u32
     \<Rightarrow> nat list \<Rightarrow> reporter_state" where
  "PrintNanInfKernel cast vals numel print_num debug_info blockDim gridDim blockIdx shared0 sched =
     fold (print_step cast vals numel print_num debug_info blockDim gridDim blockIdx) sched
       (print_init shared0)"

text \<open>
  The whole kernel, per block: the block's \<^verbatim>\<open>has_nan_inf\<close> and, when it is set, what
  the block's run of the reporter prints. \<open>shared0 b\<close> and \<open>sched b\<close> are the shared
  memory and the schedule of block \<open>b\<close>; a block that the trap of another block cuts
  short is a block with a shorter schedule.
\<close>

definition CheckNanInfKernel ::
  "(rat \<Rightarrow> fp) \<Rightarrow> (fp \<Rightarrow> fp) \<Rightarrow> (nat \<Rightarrow> u32 \<times> u32 \<times> u32) \<Rightarrow> (nat \<Rightarrow> nat list) \<Rightarrow> nat \<Rightarrow> nat
     \<Rightarrow> fp list \<Rightarrow> nat \<Rightarrow> int \<Rightarrow> dev_ptr \<Rightarrow> (bool \<times> event list) list option" where
  "CheckNanInfKernel rnd cast shared0 sched gridDim blockDim vals numel print_num debug_info =
     those (map (\<lambda>b. map_option
                        (\<lambda>has_nan_inf.
                           if \<not> has_nan_inf then (False, [])
                           else (True, out (PrintNanInfKernel cast vals numel print_num
                                              debug_info blockDim gridDim b (shared0 b) (sched b))))
                        (scan_block rnd vals numel blockDim gridDim b))
                [0..<gridDim])"

section \<open>The per-device label table\<close>

text \<open>Decimal rendering of the \<^verbatim>\<open>%d\<close> arguments of the error messages.\<close>

function show_nat :: "nat \<Rightarrow> string" where
  "show_nat n =
     (if n < 10 then [''0123456789'' ! n]
      else show_nat (n div 10) @ [''0123456789'' ! (n mod 10)])"
  by pat_completeness auto
termination
  by (relation "measure (\<lambda>n. n)") auto

declare show_nat.simps [simp del]

definition show_int :: "int \<Rightarrow> string" where
  "show_int i = (if i < 0 then CHR ''-'' # show_nat (nat (- i)) else show_nat (nat i))"

text \<open>
  The function-local statics and the once flag of the file: one map from label to device
  buffer per device, and one mutex per device.
\<close>

record gpu_state =
  init_multi_gpu_op_var_map_flag :: bool
  multi_op_var2gpu_str :: "(string \<rightharpoonup> dev_ptr) list"
  multi_op_var2gpu_str_mutex :: "unit list"

definition InitMultiGPUOpVarMap :: "int \<Rightarrow> gpu_state \<Rightarrow> error + gpu_state" where
  "InitMultiGPUOpVarMap dev_count st =
     (if \<not> 0 < dev_count
      then Inl (NotFound (''cuda device must > 0, now dev_count='' @ show_int dev_count))
      else Inr (st\<lparr>multi_op_var2gpu_str := replicate (nat dev_count) Map.empty,
                   multi_op_var2gpu_str_mutex := replicate (nat dev_count) ()\<rparr>))"

text \<open>
  \<^verbatim>\<open>std::call_once\<close>: the initialiser runs when the flag is not set; when it raises,
  the flag stays unset and the exception reaches the caller.
\<close>

definition call_once :: "int \<Rightarrow> gpu_state \<Rightarrow> error + gpu_state" where
  "call_once dev_count st =
     (if init_multi_gpu_op_var_map_flag st then Inr st
      else case InitMultiGPUOpVarMap dev_count st of
             Inl e \<Rightarrow> Inl e
           | Inr st' \<Rightarrow> Inr (st'\<lparr>init_multi_gpu_op_var_map_flag := True\<rparr>))"

section \<open>TensorCheckerVisitor::apply and tensor\_check\<close>

text \<open>
  What the host code does to the table and the device, in order: an allocation of
  \<open>size\<close> bytes on a device, the insertion of a label into the device's map, the
  asynchronous copy of the label to its buffer, and the lookup of a cached label.
\<close>

datatype host_op =
    Alloc int nat dev_ptr
  | Insert int string dev_ptr
  | Upload int string dev_ptr
  | Get int string dev_ptr

text \<open>
  What the environment answers during one check: the device count, the buffer that
  \<^verbatim>\<open>memory::Alloc\<close> returns (or its failure), whether \<^verbatim>\<open>cudaMemcpyAsync\<close> succeeds,
  and the device-side parameters of the kernel run.
\<close>

record check_env =
  dev_count :: int
  alloc_result :: "dev_ptr option"
  h2d_ok :: bool
  rnd32 :: "rat \<Rightarrow> fp"
  rnd64 :: "rat \<Rightarrow> fp"
  shared0 :: "nat \<Rightarrow> u32 \<times> u32 \<times> u32"
  sched :: "nat \<Rightarrow> nat list"

record apply_result =
  gpu_str_ptr :: dev_ptr
  kernel_launch :: "nat \<times> nat"
  kernel_blocks :: "(bool \<times> event list) list option"

definition op_var_label :: "string \<Rightarrow> string \<Rightarrow> string" where
  "op_var_label op_type var_name = ''[op='' @ op_type @ ''] [tensor='' @ var_name @ '']''"

text \<open>
  The launch at the end of \<^verbatim>\<open>apply\<close>, with \<^verbatim>\<open>print_num = 3\<close>.
\<close>

definition launch_check ::
  "(rat \<Rightarrow> fp) \<Rightarrow> (fp \<Rightarrow> fp) \<Rightarrow> check_env \<Rightarrow> fp list \<Rightarrow> dev_ptr \<Rightarrow> apply_result" where
  "launch_check rnd cast env vals ptr =
     (let print_num = 3;
          blocks = min 128 ((length vals + threads - 1) div threads)
      in \<lparr>gpu_str_ptr = ptr,
          kernel_launch = (blocks, threads),
          kernel_blocks = CheckNanInfKernel rnd cast (shared0 env) (sched env) blocks threads
                            vals (length vals) print_num ptr\<rparr>)"

definition TensorCheckerVisitor_apply ::
  "(rat \<Rightarrow> fp) \<Rightarrow> (fp \<Rightarrow> fp) \<Rightarrow> check_env \<Rightarrow> gpu_state \<Rightarrow> string \<Rightarrow> string \<Rightarrow> int \<Rightarrow> fp list
     \<Rightarrow> gpu_state \<times> host_op list \<times> (error + apply_result)" where
  "TensorCheckerVisitor_apply rnd cast env st op_type var_name dev_id vals =
     (if \<not> (0 \<le> dev_id \<and> dev_id < int (length (multi_op_var2gpu_str_mutex st)))
      then (st, [],
            Inl (OutOfRange (''GPU dev_id must >=0 and < dev_count='' @
                             show_nat (length (multi_op_var2gpu_str_mutex st)))))
      else
        let op_var = op_var_label op_type var_name in
        if \<not> nat dev_id < length (multi_op_var2gpu_str st) then (st, [], Inl StdOutOfRange)
        else
          let op_var2gpu_str = multi_op_var2gpu_str st ! nat dev_id in
          case op_var2gpu_str op_var of
            None \<Rightarrow>
              (case alloc_result env of
                 None \<Rightarrow> (st, [], Inl AllocFailed)
               | Some p \<Rightarrow>
                   let m = op_var2gpu_str(op_var \<mapsto> p);
                       st' = st\<lparr>multi_op_var2gpu_str :=
                                  (multi_op_var2gpu_str st)[nat dev_id := m]\<rparr>;
                       ops = [Alloc dev_id (length op_var + 1) p, Insert dev_id op_var p]
                   in case m op_var of
                        None \<Rightarrow>
                          (st', ops,
                           Inl (PreconditionNotMet
                                  (''op_var='' @ op_var @
                                   '' should successed insert into op_var2gpu_str, but now failed'')))
                      | Some _ \<Rightarrow>
                          if \<not> h2d_ok env
                          then (st', ops, Inl (CudaCallFailed ''cudaMemcpyAsync''))
                          else (st', ops @ [Upload dev_id op_var p],
                                Inr (launch_check rnd cast env vals p)))
          | Some q \<Rightarrow> (st, [Get dev_id op_var q], Inr (launch_check rnd cast env vals q)))"

text \<open>
  \<^verbatim>\<open>tensor_check\<close> initialises the table once and visits the tensor's element type.
  The overload of \<^verbatim>\<open>apply\<close> for the types that are not floating point is declared in
  \<^verbatim>\<open>nan_inf_utils_detail.h\<close>, outside this file: it is the parameter \<open>apply_other\<close>.
\<close>

definition tensor_check ::
  "(gpu_state \<Rightarrow> gpu_state \<times> host_op list \<times> (error + apply_result)) \<Rightarrow> check_env \<Rightarrow> gpu_state
     \<Rightarrow> string \<Rightarrow> string \<Rightarrow> tensor \<Rightarrow> gpu_state \<times> host_op list \<times> (error + apply_result)" where
  "tensor_check apply_other env st op_type var_name tensor =
     (case call_once (dev_count env) st of
        Inl e \<Rightarrow> (st, [], Inl e)
      | Inr st1 \<Rightarrow>
          (case data tensor of
             FP32 xs \<Rightarrow>
               TensorCheckerVisitor_apply (rnd32 env) (\<lambda>x. x) env st1 op_type var_name
                 (place_device tensor) xs
           | FP64 xs \<Rightarrow>
               TensorCheckerVisitor_apply (rnd64 env) (cast_float (rnd32 env)) env st1 op_type
                 var_name
                 (place_device tensor) xs
           | _ \<Rightarrow> apply_other st1))"

section \<open>Reference counts and successful runs\<close>

text \<open>
  The number of NaN elements and of infinite elements of a buffer, as the specification
  counts them, to compare the kernel's counters with.
\<close>

definition count_nan :: "('a \<Rightarrow> fp) \<Rightarrow> 'a list \<Rightarrow> nat" where
  "count_nan conv xs = length (filter (\<lambda>x. isnan (conv x)) xs)"

definition count_inf :: "('a \<Rightarrow> fp) \<Rightarrow> 'a list \<Rightarrow> nat" where
  "count_inf conv xs = length (filter (\<lambda>x. isinf (conv x)) xs)"

text \<open>Every allocator and runtime call of \<^verbatim>\<open>CudaTensorCheckNanInf\<close> succeeds.\<close>

definition cuda_calls_succeed :: "cuda_env \<Rightarrow> bool" where
  "cuda_calls_succeed env \<longleftrightarrow> alloc_ok env \<and> memset_ok env \<and> memcpy_ok env \<and> sync_ok env"

section \<open>Notions used to state the claims\<close>

text \<open>An offending element: NaN or plus or minus infinity.\<close>

definition bad :: "fp \<Rightarrow> bool" where
  "bad x \<longleftrightarrow> isnan x \<or> isinf x"

text \<open>The rounding of the element format returns zero on an exact zero result.\<close>

definition rounds_zero :: "(rat \<Rightarrow> fp) \<Rightarrow> bool" where
  "rounds_zero rnd \<longleftrightarrow> rnd 0 = Fin 0"

text \<open>
  The indices a stride loop starting at \<open>tid\<close> reaches: \<open>tid\<close>, \<open>tid + stride\<close>,
  and so on below \<open>numel\<close>.
\<close>

definition visits :: "nat \<Rightarrow> nat \<Rightarrow> nat \<Rightarrow> nat \<Rightarrow> bool" where
  "visits stride numel tid j \<longleftrightarrow> tid \<le> j \<and> j < numel \<and> stride dvd (j - tid)"

text \<open>Some thread of block \<open>b\<close> reaches an offending element.\<close>

definition block_sees :: "fp list \<Rightarrow> nat \<Rightarrow> nat \<Rightarrow> nat \<Rightarrow> nat \<Rightarrow> bool" where
  "block_sees vals numel blockDim gridDim b \<longleftrightarrow>
     (\<exists>t<blockDim. \<exists>j. visits (blockDim * gridDim) numel (t + b * blockDim) j \<and> bad (vals ! j))"

text \<open>
  A sequence of checks in one process: each check is a call of \<^verbatim>\<open>apply\<close> with its own
  arguments and its own answers from the environment, and the table is carried from one
  call to the next. A check that raises leaves the table as it is at that point.
\<close>

record check_call =
  call_rnd :: "rat \<Rightarrow> fp"
  call_cast :: "fp \<Rightarrow> fp"
  call_env :: check_env
  call_op :: string
  call_var :: string
  call_dev :: int
  call_vals :: "fp list"

definition run_check :: "gpu_state \<Rightarrow> check_call \<Rightarrow> gpu_state \<times> host_op list \<times> (error + apply_result)" where
  "run_check st c =
     TensorCheckerVisitor_apply (call_rnd c) (call_cast c) (call_env c) st (call_op c) (call_var c)
       (call_dev c) (call_vals c)"

fun run_checks :: "gpu_state \<Rightarrow> check_call list \<Rightarrow> gpu_state \<times> host_op list" where
  "run_checks st [] = (st, [])"
| "run_checks st (c # cs) =
     (case run_check st c of
        (st', ops, r) \<Rightarrow> (case run_checks st' cs of (st'', ops') \<Rightarrow> (st'', ops @ ops')))"

text \<open>The insertions and the uploads of label \<open>l\<close> on device \<open>d\<close> in a trace.\<close>

fun inserts_label :: "int \<Rightarrow> string \<Rightarrow> host_op \<Rightarrow> bool" where
  "inserts_label d l (Insert d' l' p) = (d' = d \<and> l' = l)"
| "inserts_label d l _ = False"

fun uploads_label :: "int \<Rightarrow> string \<Rightarrow> host_op \<Rightarrow> bool" where
  "uploads_label d l (Upload d' l' p) = (d' = d \<and> l' = l)"
| "uploads_label d l _ = False"

text \<open>The buffer cached for a label on a device, if any.\<close>

definition lookup_label :: "gpu_state \<Rightarrow> int \<Rightarrow> string \<Rightarrow> dev_ptr option" where
  "lookup_label st d l =
     (if 0 \<le> d \<and> nat d < length (multi_op_var2gpu_str st)
      then (multi_op_var2gpu_str st ! nat d) l else None)"

text \<open>
  The state of a process that has not run a check yet, and an environment with \<open>n\<close>
  visible devices in which every call succeeds, for concrete runs.
\<close>

definition fresh_state :: gpu_state where
  "fresh_state =
     \<lparr>init_multi_gpu_op_var_map_flag = False, multi_op_var2gpu_str = [],
      multi_op_var2gpu_str_mutex = []\<rparr>"

definition demo_env :: "int \<Rightarrow> dev_ptr \<Rightarrow> check_env" where
  "demo_env n p =
     \<lparr>dev_count = n, alloc_result = Some p, h2d_ok = True,
      rnd32 = overflow_round 340282346638528859811704183484516925440,
      rnd64 = overflow_round (2 ^ 1024),
      shared0 = (\<lambda>b. (0, 0, 0)), sched = (\<lambda>b. [])\<rparr>"

section \<open>Notions used to state the claim about the reporter\<close>

text \<open>
  The three classes the reporter counts, the class of an element, and the counter the
  reporter keeps for a class.
\<close>

datatype cls = CNan | CInf | CNum

definition classify :: "fp \<Rightarrow> cls" where
  "classify v = (if isnan v then CNan else if isinf v then CInf else CNum)"

fun counter :: "cls \<Rightarrow> reporter_state \<Rightarrow> u32" where
  "counter CNan s = nan_count s"
| "counter CInf s = inf_count s"
| "counter CNum s = num_count s"

text \<open>
  The individually printed elements of a trace whose element, at the printed index, is of
  class \<open>c\<close>; and the individual prints among all events.
\<close>

fun prints_class :: "fp list \<Rightarrow> cls \<Rightarrow> event \<Rightarrow> bool" where
  "prints_class vals c (PrintElem n i v) = (classify (vals ! i) = c)"
| "prints_class vals c _ = False"

fun is_elem :: "event \<Rightarrow> bool" where
  "is_elem (PrintElem n i v) = True"
| "is_elem _ = False"

text \<open>
  The block whose stride loops reach index \<open>j\<close>, the number of elements of a block, and
  the number of its elements of a class.
\<close>

definition block_of :: "nat \<Rightarrow> nat \<Rightarrow> nat \<Rightarrow> nat" where
  "block_of blockDim gridDim j = (j mod (blockDim * gridDim)) div blockDim"



text \<open>
  What a run of the reporter of block \<open>b\<close> may print: an element of the block with the
  buffer length, its flat index and its value after the cast; the tally of the block; the
  fatal message with the label.
\<close>

fun reporter_event_ok ::
  "(fp \<Rightarrow> fp) \<Rightarrow> fp list \<Rightarrow> nat \<Rightarrow> nat \<Rightarrow> nat \<Rightarrow> nat \<Rightarrow> dev_ptr \<Rightarrow> event \<Rightarrow> bool" where
  "reporter_event_ok cast vals numel bd gd b dbg (PrintElem n i v) =
     (n = numel \<and> i < numel \<and> block_of bd gd i = b \<and> v = cast (vals ! i))"
| "reporter_event_ok cast vals numel bd gd b dbg (PrintBlock b' n i m) = (b' = b)"
| "reporter_event_ok cast vals numel bd gd b dbg (EnforceFail p) = (p = dbg)"
| "reporter_event_ok cast vals numel bd gd b dbg (PrintSummary d opn var n i len) = False"

text \<open>
  The indices a thread has still to visit, given its program counter; an index is pending
  in a block when some thread of the block has still to visit it, and the loops of a block
  are done when no index is pending.
\<close>

fun remaining :: "nat \<Rightarrow> nat \<Rightarrow> nat \<Rightarrow> pc \<Rightarrow> nat \<Rightarrow> bool" where
  "remaining stride numel tid AtInit j = visits stride numel tid j"
| "remaining stride numel tid (AtLoop i) j = visits stride numel i j"
| "remaining stride numel tid AtTally j = False"
| "remaining stride numel tid Finished j = False"

definition pending :: "nat \<Rightarrow> nat \<Rightarrow> nat \<Rightarrow> nat \<Rightarrow> (nat \<Rightarrow> pc) \<Rightarrow> nat \<Rightarrow> bool" where
  "pending numel bd gd b f j \<longleftrightarrow> (\<exists>t<bd. remaining (bd * gd) numel (t + b * bd) (f t) j)"


text \<open>The elements of class \<open>c\<close> that the block has visited.\<close>

definition done_set :: "fp list \<Rightarrow> nat \<Rightarrow> nat \<Rightarrow> nat \<Rightarrow> nat \<Rightarrow> (nat \<Rightarrow> pc) \<Rightarrow> cls \<Rightarrow> nat set" where
  "done_set vals numel bd gd b f c =
     {j. j < numel \<and> block_of bd gd j = b \<and> \<not> pending numel bd gd b f j \<and> classify (vals ! j) = c}"



text \<open>
  Invariant of every run: the events are well formed; before the trap only elements have
  been printed; and the trap, taken by thread 0 as its last step, leaves the tally with
  the counters and the fatal message at the end of the output.
\<close>

definition reporter_shape ::
  "(fp \<Rightarrow> fp) \<Rightarrow> fp list \<Rightarrow> nat \<Rightarrow> nat \<Rightarrow> nat \<Rightarrow> nat \<Rightarrow> dev_ptr \<Rightarrow> reporter_state \<Rightarrow> bool" where
  "reporter_shape cast vals numel bd gd b dbg s \<longleftrightarrow>
     list_all (reporter_event_ok cast vals numel bd gd b dbg) (out s) \<and>
     (if trapped s
      then pcs s 0 = Finished \<and>
           (\<exists>es. out s = es @ [PrintBlock b (nan_count s) (inf_count s) (num_count s),
                               EnforceFail dbg] \<and>
                 list_all is_elem es)
      else pcs s 0 \<noteq> Finished \<and> list_all is_elem (out s))"




section \<open>The count kernel computes the counts of the covered prefix\<close>

lemma isnan_not_isinf: "isnan x \<Longrightarrow> \<not> isinf x"
  by (cases x) simp_all

lemma count_nan_append: "count_nan conv (xs @ ys) = count_nan conv xs + count_nan conv ys"
  by (simp add: count_nan_def)

lemma count_inf_append: "count_inf conv (xs @ ys) = count_inf conv xs + count_inf conv ys"
  by (simp add: count_inf_def)

lemma count_nan_le: "count_nan conv xs \<le> length xs"
  by (simp add: count_nan_def)

lemma count_inf_le: "count_inf conv xs \<le> length xs"
  by (simp add: count_inf_def)

lemma count_threads_fold:
  "fold (count_thread conv (length val) val bd b) [0..<n] sh =
     (fst sh + of_nat (count_nan conv (take n (drop (b * bd) val))),
      snd sh + of_nat (count_inf conv (take n (drop (b * bd) val))))"
proof (induction n)
  case 0
  show ?case by (simp add: count_nan_def count_inf_def)
next
  case (Suc n)
  show ?case
  proof (cases "b * bd + n < length val")
    case True
    then have t: "take (Suc n) (drop (b * bd) val) = take n (drop (b * bd) val) @ [val ! (b * bd + n)]"
      by (simp add: take_Suc_conv_app_nth)
    show ?thesis
      using True Suc
      by (simp add: t count_thread_def count_nan_append count_inf_append count_nan_def
          count_inf_def isnan_not_isinf)
  next
    case False
    then have t: "take (Suc n) (drop (b * bd) val) = take n (drop (b * bd) val)"
      by simp
    show ?thesis
      using False Suc by (simp add: t count_thread_def)
  qed
qed

lemma count_block_eq:
  "count_block conv (length val) val bd b g =
     (fst g + of_nat (count_nan conv (take bd (drop (b * bd) val))),
      snd g + of_nat (count_inf conv (take bd (drop (b * bd) val))))"
  by (simp add: count_block_def count_threads_fold)

lemma CountNanInfNumKernel_eq:
  "CountNanInfNumKernel conv gd bd (length val) val g =
     (fst g + of_nat (count_nan conv (take (gd * bd) val)),
      snd g + of_nat (count_inf conv (take (gd * bd) val)))"
proof (induction gd)
  case 0
  show ?case by (simp add: CountNanInfNumKernel_def count_nan_def count_inf_def)
next
  case (Suc gd)
  have t: "take (bd + gd * bd) val = take (gd * bd) val @ take bd (drop (gd * bd) val)"
  proof -
    have "bd + gd * bd = gd * bd + bd" by simp
    then show ?thesis by (simp only: take_add)
  qed
  show ?case
    using Suc
    by (simp add: CountNanInfNumKernel_def count_block_eq t count_nan_append count_inf_append)
qed

lemma CountNanInfNumKernel_counts:
  "len = length val \<Longrightarrow>
   CountNanInfNumKernel conv gd bd len val g =
     (fst g + of_nat (count_nan conv (take (gd * bd) val)),
      snd g + of_nat (count_inf conv (take (gd * bd) val)))"
  by (simp add: CountNanInfNumKernel_eq)

lemma blocks_of_le: "blocks_of len \<le> 128"
  by (simp add: blocks_of_def)

lemma blocks_of_cover: "len \<le> 131072 \<Longrightarrow> len \<le> blocks_of len * threads"
  by (simp add: blocks_of_def threads_def min_def) arith

lemma take_agree:
  assumes "length xs = length ys" and "\<forall>i < min (length xs) k. xs ! i = ys ! i"
  shows "take k xs = take k ys"
proof (rule nth_equalityI)
  show "length (take k xs) = length (take k ys)" using assms by simp
next
  fix i assume "i < length (take k xs)"
  then show "take k xs ! i = take k ys ! i" using assms by simp
qed

lemma kernel_agree:
  assumes "length xs = length ys"
    and "\<forall>i < min (length xs) 131072. xs ! i = ys ! i"
  shows "CountNanInfNumKernel conv (blocks_of (length xs)) threads (length xs) xs g =
         CountNanInfNumKernel conv (blocks_of (length ys)) threads (length ys) ys g"
proof -
  have "blocks_of (length xs) * threads \<le> 131072"
    using blocks_of_le [of "length xs"] by (simp add: threads_def)
  then have "\<forall>i < min (length xs) (blocks_of (length xs) * threads). xs ! i = ys ! i"
    using assms(2) by simp
  then have "take (blocks_of (length xs) * threads) xs = take (blocks_of (length xs) * threads) ys"
    by (rule take_agree [OF assms(1)])
  then show ?thesis
    unfolding CountNanInfNumKernel_eq using assms(1) by simp
qed

text \<open>Up to 131072 elements the grid covers the buffer and the counters hold the exact counts.\<close>

lemma kernel_exact_small:
  assumes "length xs \<le> 131072"
  shows "CountNanInfNumKernel conv (blocks_of (length xs)) threads (length xs) xs (0, 0) =
           (of_nat (count_nan conv xs), of_nat (count_inf conv xs))"
  using blocks_of_cover [OF assms] by (simp add: CountNanInfNumKernel_eq)

lemma unat_counts_small:
  assumes "length xs \<le> 131072"
  shows "unat (of_nat (count_nan conv xs) :: u32) = count_nan conv xs"
    and "unat (of_nat (count_inf conv xs) :: u32) = count_inf conv xs"
proof -
  have "count_nan conv xs < 2 ^ 32" "count_inf conv xs < 2 ^ 32"
    using assms count_nan_le [of conv xs] count_inf_le [of conv xs] by simp_all
  then show "unat (of_nat (count_nan conv xs) :: u32) = count_nan conv xs"
    and "unat (of_nat (count_inf conv xs) :: u32) = count_inf conv xs"
    by (simp_all add: unat_of_nat)
qed

section \<open>Claims about CudaTensorCheckNanInf\<close>

text \<open>
  Claim C3. The count kernel runs with at most 128 blocks of 1024 threads and each thread
  tests only the element at its own flat index, so the result of
  \<^verbatim>\<open>CudaTensorCheckNanInf\<close> depends only on the elements at flat index below
  \<open>min length 131072\<close>: two buffers of the same element type and the same length that
  agree on those indices give the same counts, the same boolean and the same output.
\<close>

theorem CudaTensorCheckNanInf_prefix_only:
  assumes "length xs = length ys"
    and "\<forall>i < min (length xs) 131072. xs ! i = ys ! i"
    and "length ws = length zs"
    and "\<forall>i < min (length ws) 131072. ws ! i = zs ! i"
  shows "blocks_of (length xs) \<le> 128 \<and> threads = 1024 \<and>
         CudaTensorCheckNanInf env op_type var_name \<lparr>place_device = d, data = FP32 xs\<rparr> =
         CudaTensorCheckNanInf env op_type var_name \<lparr>place_device = d, data = FP32 ys\<rparr> \<and>
         CudaTensorCheckNanInf env op_type var_name \<lparr>place_device = d, data = FP64 xs\<rparr> =
         CudaTensorCheckNanInf env op_type var_name \<lparr>place_device = d, data = FP64 ys\<rparr> \<and>
         CudaTensorCheckNanInf env op_type var_name \<lparr>place_device = d, data = INT64 ws\<rparr> =
         CudaTensorCheckNanInf env op_type var_name \<lparr>place_device = d, data = INT64 zs\<rparr>"
  using kernel_agree [OF assms(1,2)] kernel_agree [OF assms(3,4)] assms(1,3) blocks_of_le [of "length xs"]
  by (simp add: CudaTensorCheckNanInf_def Let_def threads_def)

theorem CudaTensorCheckNanInf_prefix_only_witness:
  "length (replicate 131072 (Fin 1) @ [NaN]) = length (replicate 131072 (Fin 1) @ [Fin 2]) \<and>
   take 131072 (replicate 131072 (Fin 1) @ [NaN]) =
     take 131072 (replicate 131072 (Fin 1) @ [Fin 2]) \<and>
   CudaTensorCheckNanInf \<lparr>alloc_ok = True, memset_ok = True, memcpy_ok = True, sync_ok = True\<rparr>
     ''add'' ''y'' \<lparr>place_device = 0, data = FP32 (replicate 131072 (Fin 1) @ [NaN])\<rparr> =
   CudaTensorCheckNanInf \<lparr>alloc_ok = True, memset_ok = True, memcpy_ok = True, sync_ok = True\<rparr>
     ''add'' ''y'' \<lparr>place_device = 0, data = FP32 (replicate 131072 (Fin 1) @ [Fin 2])\<rparr>"
proof -
  have h1: "length (replicate 131072 (Fin 1) @ [NaN]) = length (replicate 131072 (Fin 1) @ [Fin 2])"
    by simp
  have h2: "\<forall>i < min (length (replicate 131072 (Fin 1) @ [NaN])) 131072.
      (replicate 131072 (Fin 1) @ [NaN]) ! i = (replicate 131072 (Fin 1) @ [Fin 2]) ! i"
    by (simp add: nth_append)
  have h3: "length [1, 2 :: 64 word] = length [1, 2 :: 64 word]" by simp
  have h4: "\<forall>i < min (length [1, 2 :: 64 word]) 131072. [1, 2 :: 64 word] ! i = [1, 2 :: 64 word] ! i"
    by simp
  have h5: "take 131072 (replicate 131072 (Fin 1) @ [NaN]) =
     take 131072 (replicate 131072 (Fin 1) @ [Fin 2])"
    by simp
  from CudaTensorCheckNanInf_prefix_only [OF h1 h2 h3 h4] h1 h5
  show ?thesis by blast
qed

text \<open>
  Claim C1 says that the counts are exact whatever the size of the buffer. They are not:
  on a buffer of 131073 \<^verbatim>\<open>float\<close> elements whose only NaN is the last one, the
  function returns false with both counters 0, although the buffer holds one NaN. The
  element at flat index 131072 belongs to no thread of the 128 blocks.
\<close>

theorem CudaTensorCheckNanInf_misses_tail:
  "CudaTensorCheckNanInf \<lparr>alloc_ok = True, memset_ok = True, memcpy_ok = True, sync_ok = True\<rparr>
     ''add'' ''y'' \<lparr>place_device = 0, data = FP32 (replicate 131072 (Fin 1) @ [NaN])\<rparr> =
   Inr \<lparr>ret = False, nan_inf_num = Some (0, 0), launch = Some (128, 1024), printed = []\<rparr> \<and>
   count_nan (\<lambda>x. x) (replicate 131072 (Fin 1) @ [NaN]) = 1"
proof -
  have c: "count_nan (\<lambda>x. x) (replicate 131072 (Fin 1) @ [NaN]) = 1"
    by (simp add: count_nan_def)
  show ?thesis
    using c
    by (simp add: CudaTensorCheckNanInf_def Let_def CountNanInfNumKernel_counts blocks_of_def
        threads_def count_nan_def count_inf_def)
qed

text \<open>
  Claim C10. On a buffer of 64-bit integers no element counts as NaN or infinite: when the
  runtime calls succeed, \<^verbatim>\<open>CudaTensorCheckNanInf\<close> returns false with both counters 0
  and prints nothing.
\<close>

lemma int64_counts: "count_nan int64_to_fp xs = 0" "count_inf int64_to_fp xs = 0"
  by (simp_all add: count_nan_def count_inf_def int64_to_fp_def)

theorem CudaTensorCheckNanInf_int64_clean:
  assumes "cuda_calls_succeed env"
  shows "CudaTensorCheckNanInf env op_type var_name \<lparr>place_device = d, data = INT64 xs\<rparr> =
           Inr \<lparr>ret = False, nan_inf_num = Some (0, 0),
                launch = Some (blocks_of (length xs), threads), printed = []\<rparr>"
  using assms
  by (simp add: CudaTensorCheckNanInf_def Let_def cuda_calls_succeed_def CountNanInfNumKernel_counts
      int64_counts)

theorem CudaTensorCheckNanInf_int64_clean_witness:
  "cuda_calls_succeed \<lparr>alloc_ok = True, memset_ok = True, memcpy_ok = True, sync_ok = True\<rparr> \<and>
   CudaTensorCheckNanInf \<lparr>alloc_ok = True, memset_ok = True, memcpy_ok = True, sync_ok = True\<rparr>
     ''add'' ''y'' \<lparr>place_device = 0, data = INT64 [1, - 1, 9223372036854775807]\<rparr> =
   Inr \<lparr>ret = False, nan_inf_num = Some (0, 0),
        launch = Some (blocks_of (length [1, - 1, 9223372036854775807 :: 64 word]), threads),
        printed = []\<rparr>"
proof -
  have h: "cuda_calls_succeed
             \<lparr>alloc_ok = True, memset_ok = True, memcpy_ok = True, sync_ok = True\<rparr>"
    by (simp add: cuda_calls_succeed_def)
  from CudaTensorCheckNanInf_int64_clean [OF h] h show ?thesis by blast
qed

text \<open>
  Claim C5, as amended. For an element type without a kernel variant, once the scratch
  buffer is allocated and zeroed, \<^verbatim>\<open>CudaTensorCheckNanInf\<close> launches no kernel,
  prints nothing and returns false: the value it also returns for a clean buffer.
\<close>

theorem CudaTensorCheckNanInf_unsupported_returns_false:
  assumes "alloc_ok env" and "memset_ok env"
  shows "CudaTensorCheckNanInf env op_type var_name \<lparr>place_device = d, data = OtherType n\<rparr> =
           Inr \<lparr>ret = False, nan_inf_num = None, launch = None, printed = []\<rparr>"
  using assms by (simp add: CudaTensorCheckNanInf_def Let_def)

theorem CudaTensorCheckNanInf_unsupported_returns_false_witness:
  "alloc_ok \<lparr>alloc_ok = True, memset_ok = True, memcpy_ok = True, sync_ok = True\<rparr> \<and>
   memset_ok \<lparr>alloc_ok = True, memset_ok = True, memcpy_ok = True, sync_ok = True\<rparr> \<and>
   CudaTensorCheckNanInf \<lparr>alloc_ok = True, memset_ok = True, memcpy_ok = True, sync_ok = True\<rparr>
     ''add'' ''y'' \<lparr>place_device = 0, data = OtherType 4\<rparr> =
   Inr \<lparr>ret = False, nan_inf_num = None, launch = None, printed = []\<rparr>"
proof -
  have h1: "alloc_ok \<lparr>alloc_ok = True, memset_ok = True, memcpy_ok = True, sync_ok = True\<rparr>"
    and h2: "memset_ok \<lparr>alloc_ok = True, memset_ok = True, memcpy_ok = True, sync_ok = True\<rparr>"
    by simp_all
  from CudaTensorCheckNanInf_unsupported_returns_false [OF h1 h2] h1 h2 show ?thesis by blast
qed

text \<open>
  Claim C5 as stated asks for a signal distinct from a clean verdict. The caller sees the
  returned boolean and the printed output; both are the same for an unsupported element
  type and for a clean \<^verbatim>\<open>float\<close> buffer.
\<close>

theorem unsupported_indistinguishable_from_clean:
  "map_sum id (\<lambda>r. (ret r, printed r))
     (CudaTensorCheckNanInf
        \<lparr>alloc_ok = True, memset_ok = True, memcpy_ok = True, sync_ok = True\<rparr>
        ''add'' ''y'' \<lparr>place_device = 0, data = OtherType 4\<rparr>) = Inr (False, []) \<and>
   map_sum id (\<lambda>r. (ret r, printed r))
     (CudaTensorCheckNanInf
        \<lparr>alloc_ok = True, memset_ok = True, memcpy_ok = True, sync_ok = True\<rparr>
        ''add'' ''y'' \<lparr>place_device = 0, data = FP32 [Fin 1, Fin 2, Fin 3, Fin 4]\<rparr>) =
     Inr (False, [])"
  by (simp add: CudaTensorCheckNanInf_def Let_def CountNanInfNumKernel_counts count_nan_def
      count_inf_def blocks_of_def threads_def)

text \<open>
  The whole result of \<^verbatim>\<open>CudaTensorCheckNanInf\<close> on a supported element type, when the
  runtime calls succeed: the function returns, the counters it copies back are the ones
  the kernel computed, it returns true exactly when one of them is positive, and it prints
  the one summary line exactly then.
\<close>

lemma CudaTensorCheckNanInf_result:
  assumes "cuda_calls_succeed env"
    and "count_launch (data t) (blocks_of (tensor_numel (data t))) (tensor_numel (data t)) = Some num"
  shows "CudaTensorCheckNanInf env op_type var_name t =
           Inr \<lparr>ret = (0 < fst num \<or> 0 < snd num),
                nan_inf_num = Some num,
                launch = Some (blocks_of (tensor_numel (data t)), threads),
                printed =
                  (if 0 < fst num \<or> 0 < snd num
                   then [PrintSummary (place_device t) op_type var_name (fst num) (snd num)
                           (tensor_numel (data t) mod 2 ^ 32)]
                   else [])\<rparr>"
  using assms by (simp add: CudaTensorCheckNanInf_def Let_def cuda_calls_succeed_def)

text \<open>The scenario of the spec: one NaN among four elements.\<close>

lemma CudaTensorCheckNanInf_scenario:
  "CudaTensorCheckNanInf \<lparr>alloc_ok = True, memset_ok = True, memcpy_ok = True, sync_ok = True\<rparr>
     ''add'' ''y'' \<lparr>place_device = 0, data = FP32 [Fin 1, Fin 2, NaN, Fin 4]\<rparr> =
   Inr \<lparr>ret = True, nan_inf_num = Some (1, 0), launch = Some (1, 1024),
        printed = [PrintSummary 0 ''add'' ''y'' 1 0 4]\<rparr>"
  by (simp add: CudaTensorCheckNanInf_def Let_def CountNanInfNumKernel_counts count_nan_def
      count_inf_def blocks_of_def threads_def)

text \<open>
  Claim C6 says that the function returns true exactly when a counter is positive, prints
  the summary with the buffer length then, and never aborts. The verdict and the counters
  are as claimed, but the length in the summary is not: \<^verbatim>\<open>len\<close> is a \<^verbatim>\<open>size_t\<close>
  printed with \<^verbatim>\<open>%u\<close>. On a buffer of \<open>2 ^ 32\<close> \<^verbatim>\<open>float\<close> elements whose first
  element is NaN the function returns true with counters (1, 0) and prints 0 as the length.
  The reporter of the scan kernel prints its length with \<^verbatim>\<open>%lu\<close> after a cast to
  \<^verbatim>\<open>uint64_t\<close>.
\<close>

theorem CudaTensorCheckNanInf_summary_truncates_length:
  "CudaTensorCheckNanInf \<lparr>alloc_ok = True, memset_ok = True, memcpy_ok = True, sync_ok = True\<rparr>
     ''add'' ''y'' \<lparr>place_device = 0, data = FP32 (NaN # replicate 4294967295 (Fin 1))\<rparr> =
   Inr \<lparr>ret = True, nan_inf_num = Some (1, 0), launch = Some (128, 1024),
        printed = [PrintSummary 0 ''add'' ''y'' 1 0 0]\<rparr> \<and>
   length (NaN # replicate 4294967295 (Fin 1)) = 4294967296"
proof -
  have c: "cuda_calls_succeed
             \<lparr>alloc_ok = True, memset_ok = True, memcpy_ok = True, sync_ok = True\<rparr>"
    by (simp add: cuda_calls_succeed_def)
  have l: "length (NaN # replicate 4294967295 (Fin 1)) = 4294967296" by simp
  have b: "blocks_of 4294967296 = 128" by (simp add: blocks_of_def threads_def)
  have k: "CountNanInfNumKernel (\<lambda>x. x) 128 threads 4294967296
             (NaN # replicate 4294967295 (Fin 1)) (0, 0) = (1, 0)"
    by (simp add: CountNanInfNumKernel_counts threads_def count_nan_def count_inf_def)
  have n: "count_launch (data \<lparr>place_device = 0, data = FP32 (NaN # replicate 4294967295 (Fin 1))\<rparr>)
             (blocks_of (tensor_numel
                (data \<lparr>place_device = 0, data = FP32 (NaN # replicate 4294967295 (Fin 1))\<rparr>)))
             (tensor_numel (data \<lparr>place_device = 0, data = FP32 (NaN # replicate 4294967295 (Fin 1))\<rparr>)) =
           Some (1, 0)"
    by (simp add: b k)
  show ?thesis
    using CudaTensorCheckNanInf_result [OF c n, of "''add''" "''y''"] l
    by (simp add: b threads_def)
qed

lemma visits_step:
  assumes "0 < stride" and "i < numel"
  shows "visits stride numel i j \<longleftrightarrow> j = i \<or> visits stride numel (i + stride) j"
proof
  assume v: "visits stride numel i j"
  show "j = i \<or> visits stride numel (i + stride) j"
  proof (cases "j = i")
    case True
    then show ?thesis by simp
  next
    case False
    with v have "0 < j - i" and d: "stride dvd (j - i)" by (simp_all add: visits_def)
    then have "stride \<le> j - i" by (simp add: dvd_imp_le)
    then have le: "i + stride \<le> j" using assms(1) by arith
    have "stride dvd (j - i - stride)" by (rule dvd_diff_nat [OF d dvd_refl])
    then have "stride dvd (j - (i + stride))" by (simp only: diff_diff_left)
    with le v show ?thesis by (simp add: visits_def)
  qed
next
  assume "j = i \<or> visits stride numel (i + stride) j"
  then show "visits stride numel i j"
  proof
    assume "j = i"
    with assms show ?thesis by (simp add: visits_def)
  next
    assume v: "visits stride numel (i + stride) j"
    then have le: "i + stride \<le> j" and d: "stride dvd (j - (i + stride))"
      by (simp_all add: visits_def)
    have "j - i = (j - (i + stride)) + stride" using le by simp
    then have "stride dvd (j - i)" using d by simp
    with v le show ?thesis by (simp add: visits_def)
  qed
qed

lemma visits_none: "\<not> i < numel \<Longrightarrow> \<not> visits stride numel i j"
  by (simp add: visits_def)

lemma fsub_self:
  "rounds_zero rnd \<Longrightarrow> fsub rnd x x = (if bad x then NaN else Fin 0)"
  by (cases x) (simp_all add: fsub_def bad_def rounds_zero_def)

lemma fadd_zero_or_nan:
  assumes "rounds_zero rnd" and "acc = Fin 0 \<or> acc = NaN" and "d = Fin 0 \<or> d = NaN"
  shows "fadd rnd acc d = (if isnan acc \<or> isnan d then NaN else Fin 0)"
  using assms by (auto simp: rounds_zero_def)

lemma scan_loop_result:
  assumes "rounds_zero rnd" and "0 < stride" and "acc = Fin 0 \<or> acc = NaN"
  shows "scan_loop rnd vals numel stride i acc =
           Some (if isnan acc \<or> (\<exists>j. visits stride numel i j \<and> bad (vals ! j))
                 then NaN else Fin 0)"
  using assms(3)
proof (induction "numel - i" arbitrary: i acc rule: less_induct)
  case less
  show ?case
  proof (cases "i < numel")
    case False
    then have "scan_loop rnd vals numel stride i acc = Some acc"
      by (subst scan_loop.simps) simp
    moreover have "\<not> (\<exists>j. visits stride numel i j \<and> bad (vals ! j))"
      using False by (simp add: visits_none)
    ultimately show ?thesis using less.prems by auto
  next
    case True
    let ?acc' = "fadd rnd acc (fsub rnd (vals ! i) (vals ! i))"
    have acc': "?acc' = (if isnan acc \<or> bad (vals ! i) then NaN else Fin 0)"
      using less.prems assms(1) by (auto simp: fsub_self rounds_zero_def)
    then have acc'_cases: "?acc' = Fin 0 \<or> ?acc' = NaN" by simp
    have m: "numel - (i + stride) < numel - i" using True assms(2) by simp
    have "scan_loop rnd vals numel stride i acc =
            scan_loop rnd vals numel stride (i + stride) ?acc'"
      using True by (subst scan_loop.simps) simp
    also have "\<dots> = Some (if isnan ?acc' \<or>
                               (\<exists>j. visits stride numel (i + stride) j \<and> bad (vals ! j))
                            then NaN else Fin 0)"
      by (rule less.hyps [OF m acc'_cases])
    also have "(isnan ?acc' \<or> (\<exists>j. visits stride numel (i + stride) j \<and> bad (vals ! j))) \<longleftrightarrow>
               (isnan acc \<or> (\<exists>j. visits stride numel i j \<and> bad (vals ! j)))"
      using visits_step [OF assms(2) True] acc' by auto
    finally show ?thesis .
  qed
qed

lemma scan_thread_result:
  assumes "rounds_zero rnd" and "0 < blockDim * gridDim"
  shows "scan_thread rnd vals numel blockDim gridDim b t =
           Some (\<exists>j. visits (blockDim * gridDim) numel (t + b * blockDim) j \<and> bad (vals ! j))"
  using scan_loop_result [OF assms, of "Fin 0" vals numel "t + b * blockDim"]
  by (simp add: scan_thread_def)

lemma those_map_Some:
  "(\<And>x. x \<in> set xs \<Longrightarrow> f x = Some (g x)) \<Longrightarrow> those (map f xs) = Some (map g xs)"
  by (induction xs) simp_all

lemma list_ex_map_upt: "list_ex (\<lambda>f. f) (map g [0..<n]) \<longleftrightarrow> (\<exists>t<n. g t)"
  by (auto simp: list_ex_iff)

lemma scan_block_result:
  assumes "rounds_zero rnd" and "0 < blockDim * gridDim"
  shows "scan_block rnd vals numel blockDim gridDim b =
           Some (block_sees vals numel blockDim gridDim b)"
proof -
  have "those (map (scan_thread rnd vals numel blockDim gridDim b) [0..<blockDim]) =
          Some (map (\<lambda>t. \<exists>j. visits (blockDim * gridDim) numel (t + b * blockDim) j \<and>
                            bad (vals ! j)) [0..<blockDim])"
    using assms by (intro those_map_Some scan_thread_result)
  then show ?thesis
    by (simp add: scan_block_def list_ex_map_upt block_sees_def)
qed

lemma covered:
  assumes "0 < blockDim * gridDim" and "j < numel"
  shows "\<exists>b<gridDim. \<exists>t<blockDim. visits (blockDim * gridDim) numel (t + b * blockDim) j"
proof -
  let ?k = "j mod (blockDim * gridDim)"
  have bd: "0 < blockDim" using assms(1) by simp
  have k: "?k < blockDim * gridDim" using assms(1) by simp
  then have b: "?k div blockDim < gridDim"
    by (simp add: less_mult_imp_div_less mult.commute)
  have t: "?k mod blockDim < blockDim" using bd by simp
  have e: "?k mod blockDim + ?k div blockDim * blockDim = ?k" by simp
  have "visits (blockDim * gridDim) numel ?k j"
    using assms(2) by (simp add: visits_def dvd_minus_mod)
  with b t e show ?thesis by metis
qed

lemma some_block_sees:
  assumes "0 < blockDim * gridDim"
  shows "(\<exists>b<gridDim. block_sees vals numel blockDim gridDim b) \<longleftrightarrow>
         (\<exists>j<numel. bad (vals ! j))"
proof
  assume "\<exists>b<gridDim. block_sees vals numel blockDim gridDim b"
  then show "\<exists>j<numel. bad (vals ! j)"
    by (auto simp: block_sees_def visits_def)
next
  assume "\<exists>j<numel. bad (vals ! j)"
  then obtain j where j: "j < numel" "bad (vals ! j)" by blast
  from covered [OF assms j(1)] j(2) show "\<exists>b<gridDim. block_sees vals numel blockDim gridDim b"
    unfolding block_sees_def by blast
qed

lemma CheckNanInfKernel_result:
  assumes "rounds_zero rnd" and "0 < blockDim * gridDim \<or> gridDim = 0"
  shows "CheckNanInfKernel rnd cast sh0 sc gridDim blockDim vals numel pn dbg =
           Some (map (\<lambda>b. if \<not> block_sees vals numel blockDim gridDim b then (False, [])
                           else (True, out (PrintNanInfKernel cast vals numel pn dbg blockDim gridDim b
                                              (sh0 b) (sc b))))
                   [0..<gridDim])"
proof (cases "gridDim = 0")
  case True
  then show ?thesis by (simp add: CheckNanInfKernel_def)
next
  case False
  with assms(2) have pos: "0 < blockDim * gridDim" by simp
  show ?thesis
    unfolding CheckNanInfKernel_def
    by (rule those_map_Some) (simp add: scan_block_result [OF assms(1) pos])
qed

lemma blocks_of_zero: "blocks_of n = 0 \<Longrightarrow> n = 0"
proof -
  assume "blocks_of n = 0"
  then have "(n + 1023) div 1024 = 0" by (simp add: blocks_of_def threads_def min_def split: if_splits)
  then show "n = 0" by arith
qed

lemma launch_dims: "0 < threads * blocks_of n \<or> blocks_of n = 0"
  by (auto simp: threads_def)

text \<open>
  Claim C2. With a rounding that returns zero on an exact zero, every finite element
  contributes exactly 0 to the sum. For the launch made by \<^verbatim>\<open>apply\<close> (1024 threads,
  \<open>min 128 \<lceil>n / 1024\<rceil>\<close> blocks), the stride loop of every thread returns, and its
  sum is NaN or infinite exactly when one of the elements it visited is NaN or infinite.
  The kernel returns; a block enters the reporter exactly when one of its threads visited
  such an element; and some block enters it exactly when the buffer holds a NaN or an
  infinite element.
\<close>

theorem CheckNanInfKernel_detects:
  assumes "rounds_zero rnd"
  shows "(\<forall>a. fsub rnd (Fin a) (Fin a) = Fin 0) \<and>
         (\<forall>b<blocks_of (length vals). \<forall>t<threads.
            \<exists>s. scan_loop rnd vals (length vals) (threads * blocks_of (length vals))
                   (t + b * threads) (Fin 0) = Some s \<and>
                 (isnan s \<or> isinf s \<longleftrightarrow>
                    (\<exists>j. visits (threads * blocks_of (length vals)) (length vals)
                            (t + b * threads) j \<and> bad (vals ! j)))) \<and>
         (\<exists>res. CheckNanInfKernel rnd cast sh0 sc (blocks_of (length vals)) threads vals (length vals)
                   pn dbg = Some res \<and>
                 length res = blocks_of (length vals) \<and>
                 (\<forall>b<blocks_of (length vals).
                    fst (res ! b) = block_sees vals (length vals) threads (blocks_of (length vals)) b \<and>
                    snd (res ! b) =
                      (if fst (res ! b)
                       then out (PrintNanInfKernel cast vals (length vals) pn dbg threads
                                   (blocks_of (length vals)) b (sh0 b) (sc b))
                       else [])) \<and>
                 ((\<exists>b<blocks_of (length vals). fst (res ! b)) \<longleftrightarrow>
                    (\<exists>j<length vals. bad (vals ! j))))"
proof (intro conjI)
  show "\<forall>a. fsub rnd (Fin a) (Fin a) = Fin 0"
    using assms by (simp add: fsub_self bad_def)
next
  show "\<forall>b<blocks_of (length vals). \<forall>t<threads.
          \<exists>s. scan_loop rnd vals (length vals) (threads * blocks_of (length vals))
                 (t + b * threads) (Fin 0) = Some s \<and>
               (isnan s \<or> isinf s \<longleftrightarrow>
                  (\<exists>j. visits (threads * blocks_of (length vals)) (length vals)
                          (t + b * threads) j \<and> bad (vals ! j)))"
  proof (intro allI impI)
    fix b t
    assume b: "b < blocks_of (length vals)" and "t < threads"
    then have pos: "0 < threads * blocks_of (length vals)" by (simp add: threads_def)
    have "scan_loop rnd vals (length vals) (threads * blocks_of (length vals))
            (t + b * threads) (Fin 0) =
          Some (if isnan (Fin 0) \<or>
                   (\<exists>j. visits (threads * blocks_of (length vals)) (length vals)
                           (t + b * threads) j \<and> bad (vals ! j))
                then NaN else Fin 0)"
      using assms pos by (intro scan_loop_result) simp_all
    then show "\<exists>s. scan_loop rnd vals (length vals) (threads * blocks_of (length vals))
                      (t + b * threads) (Fin 0) = Some s \<and>
                    (isnan s \<or> isinf s \<longleftrightarrow>
                       (\<exists>j. visits (threads * blocks_of (length vals)) (length vals)
                               (t + b * threads) j \<and> bad (vals ! j)))"
      by simp
  qed
next
  let ?n = "length vals"
  let ?g = "blocks_of ?n"
  let ?res = "map (\<lambda>b. if \<not> block_sees vals ?n threads ?g b then (False, [])
                        else (True, out (PrintNanInfKernel cast vals ?n pn dbg threads ?g b
                                           (sh0 b) (sc b))))
                [0..<?g]"
  have r: "CheckNanInfKernel rnd cast sh0 sc ?g threads vals ?n pn dbg = Some ?res"
    by (rule CheckNanInfKernel_result [OF assms launch_dims])
  have f: "\<forall>b<?g. fst (?res ! b) = block_sees vals ?n threads ?g b \<and>
                  snd (?res ! b) =
                    (if fst (?res ! b)
                     then out (PrintNanInfKernel cast vals ?n pn dbg threads ?g b (sh0 b) (sc b))
                     else [])"
    by simp
  have e: "(\<exists>b<?g. fst (?res ! b)) \<longleftrightarrow> (\<exists>j<?n. bad (vals ! j))"
  proof (cases "?g = 0")
    case True
    then have "?n = 0" by (rule blocks_of_zero)
    with True show ?thesis by simp
  next
    case False
    then have pos: "0 < threads * ?g" by (simp add: threads_def)
    have "(\<exists>b<?g. fst (?res ! b)) \<longleftrightarrow> (\<exists>b<?g. block_sees vals ?n threads ?g b)"
      using f by blast
    with some_block_sees [OF pos] show ?thesis by simp
  qed
  show "\<exists>res. CheckNanInfKernel rnd cast sh0 sc ?g threads vals ?n pn dbg = Some res \<and>
              length res = ?g \<and>
              (\<forall>b<?g. fst (res ! b) = block_sees vals ?n threads ?g b \<and>
                 snd (res ! b) =
                   (if fst (res ! b)
                    then out (PrintNanInfKernel cast vals ?n pn dbg threads ?g b (sh0 b) (sc b))
                    else [])) \<and>
              ((\<exists>b<?g. fst (res ! b)) \<longleftrightarrow> (\<exists>j<?n. bad (vals ! j)))"
    using r f e by (intro exI [of _ ?res] conjI) simp_all
qed

theorem CheckNanInfKernel_detects_witness:
  "rounds_zero (overflow_round 1000) \<and>
   (\<exists>res. CheckNanInfKernel (overflow_round 1000) (\<lambda>x. x) (\<lambda>b. (7, 8, 9)) (\<lambda>b. [0, 0, 1, 1])
             (blocks_of (length [Fin 1, Fin 2, NaN, Fin 4])) threads [Fin 1, Fin 2, NaN, Fin 4]
             (length [Fin 1, Fin 2, NaN, Fin 4]) 3 0 = Some res \<and>
           (\<exists>b<blocks_of (length [Fin 1, Fin 2, NaN, Fin 4]). fst (res ! b)))"
proof -
  have h: "rounds_zero (overflow_round 1000)"
    by (simp add: rounds_zero_def overflow_round_def)
  have j: "\<exists>j<length [Fin 1, Fin 2, NaN, Fin 4]. bad ([Fin 1, Fin 2, NaN, Fin 4] ! j)"
    by (rule exI [of _ 2]) (simp add: bad_def)
  from CheckNanInfKernel_detects [OF h, where vals = "[Fin 1, Fin 2, NaN, Fin 4]"
      and cast = "\<lambda>x. x" and ?sh0.0 = "\<lambda>b. (7, 8, 9)" and sc = "\<lambda>b. [0, 0, 1, 1]" and pn = 3
      and dbg = 0] j h
  show ?thesis by blast
qed

lemma gpu_str_ptr_launch_check [simp]: "gpu_str_ptr (launch_check rnd cast env vals p) = p"
  by (simp add: launch_check_def Let_def)

lemma apply_mutex [simp]:
  "multi_op_var2gpu_str_mutex (fst (TensorCheckerVisitor_apply rnd cast env st op_type var_name d vals)) =
   multi_op_var2gpu_str_mutex st"
  by (simp add: TensorCheckerVisitor_apply_def Let_def split: option.splits)

lemma apply_lookup_persists:
  assumes "lookup_label st d l = Some p"
  shows "lookup_label (fst (TensorCheckerVisitor_apply rnd cast env st op_type var_name d' vals)) d l = Some p"
  using assms
  by (auto simp: TensorCheckerVisitor_apply_def Let_def lookup_label_def nth_list_update nat_eq_iff
      split: option.splits if_splits)

lemma apply_no_insert_when_cached:
  assumes "lookup_label st d l = Some p"
  shows "filter (inserts_label d l) (fst (snd (TensorCheckerVisitor_apply rnd cast env st op_type var_name d' vals))) = []"
  using assms
  by (auto simp: TensorCheckerVisitor_apply_def Let_def lookup_label_def
      split: option.splits if_splits)

lemma apply_insert_once:
  "length (filter (inserts_label d l) (fst (snd (TensorCheckerVisitor_apply rnd cast env st op_type var_name d' vals)))) \<le> 1"
  by (auto simp: TensorCheckerVisitor_apply_def Let_def split: option.splits if_splits)

lemma apply_insert_caches:
  assumes "filter (inserts_label d l) (fst (snd (TensorCheckerVisitor_apply rnd cast env st op_type var_name d' vals))) \<noteq> []"
  shows "\<exists>p. lookup_label (fst (TensorCheckerVisitor_apply rnd cast env st op_type var_name d' vals)) d l = Some p"
  using assms
  by (auto simp: TensorCheckerVisitor_apply_def Let_def lookup_label_def
      split: option.splits if_splits)

lemma apply_uploads_le_inserts:
  "length (filter (uploads_label d l) (fst (snd (TensorCheckerVisitor_apply rnd cast env st op_type var_name d' vals))))
   \<le> length (filter (inserts_label d l) (fst (snd (TensorCheckerVisitor_apply rnd cast env st op_type var_name d' vals))))"
  by (auto simp: TensorCheckerVisitor_apply_def Let_def split: option.splits if_splits)

lemma run_checks_Cons:
  "run_checks st (c # cs) =
     (fst (run_checks (fst (run_check st c)) cs),
      fst (snd (run_check st c)) @ snd (run_checks (fst (run_check st c)) cs))"
  by (simp split: prod.splits)

lemma run_checks_cached:
  assumes "lookup_label st d l = Some p"
  shows "lookup_label (fst (run_checks st cs)) d l = Some p \<and>
         filter (inserts_label d l) (snd (run_checks st cs)) = []"
  using assms
proof (induction cs arbitrary: st)
  case Nil
  then show ?case by simp
next
  case (Cons c cs)
  have "lookup_label (fst (run_check st c)) d l = Some p"
    unfolding run_check_def by (rule apply_lookup_persists [OF Cons.prems])
  from Cons.IH [OF this]
  have ih: "lookup_label (fst (run_checks (fst (run_check st c)) cs)) d l = Some p"
    "filter (inserts_label d l) (snd (run_checks (fst (run_check st c)) cs)) = []" by simp_all
  have "filter (inserts_label d l) (fst (snd (run_check st c))) = []"
    unfolding run_check_def by (rule apply_no_insert_when_cached [OF Cons.prems])
  with ih show ?case by (simp only: run_checks_Cons fst_conv snd_conv filter_append) simp
qed

lemma run_checks_mutex [simp]:
  "multi_op_var2gpu_str_mutex (fst (run_checks st cs)) = multi_op_var2gpu_str_mutex st"
proof (induction cs arbitrary: st)
  case Nil
  show ?case by simp
next
  case (Cons c cs)
  have "multi_op_var2gpu_str_mutex (fst (run_check st c)) = multi_op_var2gpu_str_mutex st"
    unfolding run_check_def by (rule apply_mutex)
  with Cons.IH [of "fst (run_check st c)"] show ?case
    by (simp only: run_checks_Cons fst_conv)
qed

lemma run_checks_insert_once:
  "length (filter (inserts_label d l) (snd (run_checks st cs))) \<le> 1"
proof (induction cs arbitrary: st)
  case Nil
  show ?case by simp
next
  case (Cons c cs)
  let ?ops = "fst (snd (run_check st c))"
  let ?st' = "fst (run_check st c)"
  have one: "length (filter (inserts_label d l) ?ops) \<le> 1"
    unfolding run_check_def by (rule apply_insert_once)
  show ?case
  proof (cases "filter (inserts_label d l) ?ops = []")
    case True
    with Cons.IH [of ?st'] show ?thesis
      by (simp only: run_checks_Cons snd_conv filter_append) simp
  next
    case False
    then have "\<exists>p. lookup_label ?st' d l = Some p"
      unfolding run_check_def by (rule apply_insert_caches)
    then obtain p where "lookup_label ?st' d l = Some p" by blast
    from run_checks_cached [OF this, of cs]
    have "filter (inserts_label d l) (snd (run_checks ?st' cs)) = []" by simp
    with one show ?thesis
      by (simp only: run_checks_Cons snd_conv filter_append) simp
  qed
qed

lemma run_checks_uploads_le_inserts:
  "length (filter (uploads_label d l) (snd (run_checks st cs))) \<le>
   length (filter (inserts_label d l) (snd (run_checks st cs)))"
proof (induction cs arbitrary: st)
  case Nil
  show ?case by simp
next
  case (Cons c cs)
  have "length (filter (uploads_label d l) (fst (snd (run_check st c)))) \<le>
        length (filter (inserts_label d l) (fst (snd (run_check st c))))"
    unfolding run_check_def by (rule apply_uploads_le_inserts)
  with Cons.IH [of "fst (run_check st c)"] show ?case
    by (simp only: run_checks_Cons snd_conv filter_append length_append add_mono)
qed

lemma apply_success_caches:
  assumes "snd (snd (TensorCheckerVisitor_apply rnd cast env st op_type var_name d vals)) = Inr res"
  shows "lookup_label (fst (TensorCheckerVisitor_apply rnd cast env st op_type var_name d vals)) d
           (op_var_label op_type var_name) = Some (gpu_str_ptr res) \<and>
         0 \<le> d \<and> d < int (length (multi_op_var2gpu_str_mutex st))"
  using assms
  by (auto simp: TensorCheckerVisitor_apply_def Let_def lookup_label_def
      split: option.splits if_splits)

lemma apply_get:
  assumes "lookup_label st d (op_var_label op_type var_name) = Some p"
    and "0 \<le> d" and "d < int (length (multi_op_var2gpu_str_mutex st))"
  shows "TensorCheckerVisitor_apply rnd cast env st op_type var_name d vals =
           (st, [Get d (op_var_label op_type var_name) p], Inr (launch_check rnd cast env vals p))"
  using assms
  by (auto simp: TensorCheckerVisitor_apply_def Let_def lookup_label_def
      split: option.splits if_splits)

lemma apply_first_insert:
  assumes "lookup_label st d (op_var_label op_type var_name) = None"
    and "0 \<le> d" and "d < int (length (multi_op_var2gpu_str_mutex st))"
    and "nat d < length (multi_op_var2gpu_str st)"
    and "alloc_result env = Some p" and "h2d_ok env"
  shows "fst (snd (TensorCheckerVisitor_apply rnd cast env st op_type var_name d vals)) =
           [Alloc d (length (op_var_label op_type var_name) + 1) p,
            Insert d (op_var_label op_type var_name) p,
            Upload d (op_var_label op_type var_name) p] \<and>
         snd (snd (TensorCheckerVisitor_apply rnd cast env st op_type var_name d vals)) =
           Inr (launch_check rnd cast env vals p)"
  using assms
  by (auto simp: TensorCheckerVisitor_apply_def Let_def lookup_label_def
      split: option.splits if_splits)

section \<open>Claims about the label table\<close>

text \<open>
  Claim C4. In any sequence of checks, from any state of the table, the label of a pair
  (operator, variable) is inserted into the map of a device at most once and uploaded at
  most once. A check that finds the label absent on an in-range device allocates, inserts
  and uploads it; and once a check of the pair on a device has succeeded, every later check
  of the same pair on that device, whatever happened in between, only looks the label up:
  it returns the pointer cached by the first one and neither allocates, inserts nor uploads.
  The map is keyed by the label text \<^verbatim>\<open>[op=...] [tensor=...]\<close>.
\<close>

theorem label_uploaded_at_most_once:
  "length (filter (inserts_label d (op_var_label op_type var_name)) (snd (run_checks st cs))) \<le> 1 \<and>
   length (filter (uploads_label d (op_var_label op_type var_name)) (snd (run_checks st cs))) \<le> 1 \<and>
   (lookup_label st d (op_var_label op_type var_name) = None \<and> 0 \<le> d \<and>
    d < int (length (multi_op_var2gpu_str_mutex st)) \<and> nat d < length (multi_op_var2gpu_str st) \<and>
    alloc_result env1 = Some p \<and> h2d_ok env1 \<longrightarrow>
      fst (snd (TensorCheckerVisitor_apply rnd1 cast1 env1 st op_type var_name d vals1)) =
        [Alloc d (length (op_var_label op_type var_name) + 1) p,
         Insert d (op_var_label op_type var_name) p,
         Upload d (op_var_label op_type var_name) p]) \<and>
   (\<forall>res. snd (snd (TensorCheckerVisitor_apply rnd1 cast1 env1 st op_type var_name d vals1)) = Inr res \<longrightarrow>
      TensorCheckerVisitor_apply rnd2 cast2 env2
        (fst (run_checks (fst (TensorCheckerVisitor_apply rnd1 cast1 env1 st op_type var_name d vals1)) cs))
        op_type var_name d vals2 =
      (fst (run_checks (fst (TensorCheckerVisitor_apply rnd1 cast1 env1 st op_type var_name d vals1)) cs),
       [Get d (op_var_label op_type var_name) (gpu_str_ptr res)],
       Inr (launch_check rnd2 cast2 env2 vals2 (gpu_str_ptr res))))"
proof (intro conjI allI impI)
  show "length (filter (inserts_label d (op_var_label op_type var_name)) (snd (run_checks st cs))) \<le> 1"
    by (rule run_checks_insert_once)
  show "length (filter (uploads_label d (op_var_label op_type var_name)) (snd (run_checks st cs))) \<le> 1"
    using run_checks_uploads_le_inserts [of d "op_var_label op_type var_name" st cs]
      run_checks_insert_once [of d "op_var_label op_type var_name" st cs]
    by simp
next
  assume "lookup_label st d (op_var_label op_type var_name) = None \<and> 0 \<le> d \<and>
    d < int (length (multi_op_var2gpu_str_mutex st)) \<and> nat d < length (multi_op_var2gpu_str st) \<and>
    alloc_result env1 = Some p \<and> h2d_ok env1"
  then show "fst (snd (TensorCheckerVisitor_apply rnd1 cast1 env1 st op_type var_name d vals1)) =
        [Alloc d (length (op_var_label op_type var_name) + 1) p,
         Insert d (op_var_label op_type var_name) p,
         Upload d (op_var_label op_type var_name) p]"
    using apply_first_insert [of st d op_type var_name env1 p rnd1 cast1 vals1] by simp
next
  fix res
  let ?st1 = "fst (TensorCheckerVisitor_apply rnd1 cast1 env1 st op_type var_name d vals1)"
  let ?st2 = "fst (run_checks ?st1 cs)"
  assume r: "snd (snd (TensorCheckerVisitor_apply rnd1 cast1 env1 st op_type var_name d vals1)) = Inr res"
  from apply_success_caches [OF r]
  have c: "lookup_label ?st1 d (op_var_label op_type var_name) = Some (gpu_str_ptr res)"
    and d: "0 \<le> d" "d < int (length (multi_op_var2gpu_str_mutex st))" by simp_all
  from run_checks_cached [OF c, of cs]
  have c2: "lookup_label ?st2 d (op_var_label op_type var_name) = Some (gpu_str_ptr res)" by simp
  have m: "d < int (length (multi_op_var2gpu_str_mutex ?st2))" using d by simp
  show "TensorCheckerVisitor_apply rnd2 cast2 env2 ?st2 op_type var_name d vals2 =
      (?st2, [Get d (op_var_label op_type var_name) (gpu_str_ptr res)],
       Inr (launch_check rnd2 cast2 env2 vals2 (gpu_str_ptr res)))"
    by (rule apply_get [OF c2 d(1) m])
qed

theorem label_uploaded_at_most_once_witness:
  "fst (snd (TensorCheckerVisitor_apply (overflow_round 1000) (\<lambda>x. x) (demo_env 2 4096)
              \<lparr>init_multi_gpu_op_var_map_flag = True,
               multi_op_var2gpu_str = [Map.empty, Map.empty],
               multi_op_var2gpu_str_mutex = [(), ()]\<rparr>
              ''add'' ''y'' 0 [Fin 1])) =
     [Alloc 0 (length (op_var_label ''add'' ''y'') + 1) 4096,
      Insert 0 (op_var_label ''add'' ''y'') 4096,
      Upload 0 (op_var_label ''add'' ''y'') 4096] \<and>
   fst (snd (TensorCheckerVisitor_apply (overflow_round 1000) (\<lambda>x. x) (demo_env 2 8192)
     (fst (run_checks
             (fst (TensorCheckerVisitor_apply (overflow_round 1000) (\<lambda>x. x) (demo_env 2 4096)
                     \<lparr>init_multi_gpu_op_var_map_flag = True,
                      multi_op_var2gpu_str = [Map.empty, Map.empty],
                      multi_op_var2gpu_str_mutex = [(), ()]\<rparr>
                     ''add'' ''y'' 0 [Fin 1]))
             [\<lparr>call_rnd = overflow_round 1000, call_cast = (\<lambda>x. x), call_env = demo_env 2 12288, call_op = ''mul'',
               call_var = ''z'', call_dev = 0, call_vals = [Fin 3]\<rparr>]))
     ''add'' ''y'' 0 [Fin 2])) =
     [Get 0 (op_var_label ''add'' ''y'') 4096]"
proof -
  let ?st = "\<lparr>init_multi_gpu_op_var_map_flag = True,
               multi_op_var2gpu_str = [Map.empty, Map.empty],
               multi_op_var2gpu_str_mutex = [(), ()]\<rparr>"
  have h: "lookup_label ?st 0 (op_var_label ''add'' ''y'') = None \<and> (0::int) \<le> 0 \<and>
    0 < int (length (multi_op_var2gpu_str_mutex ?st)) \<and> nat 0 < length (multi_op_var2gpu_str ?st) \<and>
    alloc_result (demo_env 2 4096) = Some 4096 \<and> h2d_ok (demo_env 2 4096)"
    by (simp add: lookup_label_def demo_env_def)
  then have r: "snd (snd (TensorCheckerVisitor_apply (overflow_round 1000) (\<lambda>x. x) (demo_env 2 4096) ?st
                       ''add'' ''y'' 0 [Fin 1])) =
             Inr (launch_check (overflow_round 1000) (\<lambda>x. x) (demo_env 2 4096) [Fin 1] 4096)"
    using apply_first_insert [of ?st 0 "''add''" "''y''" "demo_env 2 4096" 4096
        "overflow_round 1000" "\<lambda>x. x" "[Fin 1]"]
    by simp
  note t = label_uploaded_at_most_once [of 0 "''add''" "''y''" ?st
      "[\<lparr>call_rnd = overflow_round 1000, call_cast = (\<lambda>x. x), call_env = demo_env 2 12288, call_op = ''mul'',
         call_var = ''z'', call_dev = 0, call_vals = [Fin 3]\<rparr>]"
      "demo_env 2 4096" 4096 "overflow_round 1000" "\<lambda>x. x" "[Fin 1]" "overflow_round 1000"
      "\<lambda>x. x" "demo_env 2 8192" "[Fin 2]"]
  from t h have a: "fst (snd (TensorCheckerVisitor_apply (overflow_round 1000) (\<lambda>x. x) (demo_env 2 4096) ?st
              ''add'' ''y'' 0 [Fin 1])) =
     [Alloc 0 (length (op_var_label ''add'' ''y'') + 1) 4096,
      Insert 0 (op_var_label ''add'' ''y'') 4096,
      Upload 0 (op_var_label ''add'' ''y'') 4096]"
    by blast
  from t r have b: "TensorCheckerVisitor_apply (overflow_round 1000) (\<lambda>x. x) (demo_env 2 8192)
     (fst (run_checks
             (fst (TensorCheckerVisitor_apply (overflow_round 1000) (\<lambda>x. x) (demo_env 2 4096) ?st
                     ''add'' ''y'' 0 [Fin 1]))
             [\<lparr>call_rnd = overflow_round 1000, call_cast = (\<lambda>x. x), call_env = demo_env 2 12288, call_op = ''mul'',
               call_var = ''z'', call_dev = 0, call_vals = [Fin 3]\<rparr>]))
     ''add'' ''y'' 0 [Fin 2] =
     (fst (run_checks
             (fst (TensorCheckerVisitor_apply (overflow_round 1000) (\<lambda>x. x) (demo_env 2 4096) ?st
                     ''add'' ''y'' 0 [Fin 1]))
             [\<lparr>call_rnd = overflow_round 1000, call_cast = (\<lambda>x. x), call_env = demo_env 2 12288, call_op = ''mul'',
               call_var = ''z'', call_dev = 0, call_vals = [Fin 3]\<rparr>]),
      [Get 0 (op_var_label ''add'' ''y'')
         (gpu_str_ptr (launch_check (overflow_round 1000) (\<lambda>x. x) (demo_env 2 4096) [Fin 1] 4096))],
      Inr (launch_check (overflow_round 1000) (\<lambda>x. x) (demo_env 2 8192) [Fin 2]
             (gpu_str_ptr (launch_check (overflow_round 1000) (\<lambda>x. x) (demo_env 2 4096) [Fin 1] 4096))))"
    by blast
  show ?thesis
    by (rule conjI [OF a]) (simp only: b fst_conv snd_conv gpu_str_ptr_launch_check)
qed

text \<open>
  Claim C7, as amended. When the device index of the placement is outside
  \<open>[0, device_count)\<close>, \<^verbatim>\<open>apply\<close> fails with an out-of-range error before it touches
  the table, and the message of the error names the valid bound, the number of devices;
  with 2 devices and index 5 it reads \<^verbatim>\<open>GPU dev_id must >=0 and < dev_count=2\<close>.
  The message is the one built by \<^verbatim>\<open>errors::OutOfRange\<close>; the enforce macro, defined
  outside this file, adds the text of the compared expression and the two booleans.
\<close>

theorem device_index_out_of_range:
  assumes "\<not> (0 \<le> dev_id \<and> dev_id < int (length (multi_op_var2gpu_str_mutex st)))"
  shows "TensorCheckerVisitor_apply rnd cast env st op_type var_name dev_id vals =
           (st, [],
            Inl (OutOfRange (''GPU dev_id must >=0 and < dev_count='' @
                             show_nat (length (multi_op_var2gpu_str_mutex st)))))"
  using assms by (simp add: TensorCheckerVisitor_apply_def)

lemma tensor_check_fresh_two:
  "tensor_check other (demo_env 2 p) fresh_state op_type var_name \<lparr>place_device = d, data = FP32 xs\<rparr> =
   TensorCheckerVisitor_apply (rnd32 (demo_env 2 p)) (\<lambda>x. x) (demo_env 2 p)
     \<lparr>init_multi_gpu_op_var_map_flag = True,
      multi_op_var2gpu_str = [Map.empty, Map.empty],
      multi_op_var2gpu_str_mutex = [(), ()]\<rparr> op_type var_name d xs"
  by (simp add: tensor_check_def call_once_def InitMultiGPUOpVarMap_def fresh_state_def demo_env_def
      eval_nat_numeral)

theorem device_index_out_of_range_witness:
  "\<not> ((0::int) \<le> 5 \<and>
      5 < int (length (multi_op_var2gpu_str_mutex
                         \<lparr>init_multi_gpu_op_var_map_flag = True,
                          multi_op_var2gpu_str = [Map.empty, Map.empty],
                          multi_op_var2gpu_str_mutex = [(), ()]\<rparr>))) \<and>
   snd (snd (TensorCheckerVisitor_apply (overflow_round 1000) (\<lambda>x. x) (demo_env 2 4096)
               \<lparr>init_multi_gpu_op_var_map_flag = True,
                multi_op_var2gpu_str = [Map.empty, Map.empty],
                multi_op_var2gpu_str_mutex = [(), ()]\<rparr> ''add'' ''y'' 5 [Fin 1])) =
     Inl (OutOfRange ''GPU dev_id must >=0 and < dev_count=2'')"
proof -
  let ?st = "\<lparr>init_multi_gpu_op_var_map_flag = True,
               multi_op_var2gpu_str = [Map.empty, Map.empty],
               multi_op_var2gpu_str_mutex = [(), ()]\<rparr>"
  have h: "\<not> ((0::int) \<le> 5 \<and> 5 < int (length (multi_op_var2gpu_str_mutex ?st)))" by simp
  have s: "show_nat (length (multi_op_var2gpu_str_mutex ?st)) = ''2''"
    by (simp add: show_nat.simps)
  from device_index_out_of_range [OF h, of "overflow_round 1000" "\<lambda>x. x" "demo_env 2 4096"
      "''add''" "''y''" "[Fin 1]"] h s
  show ?thesis by simp
qed

text \<open>
  Claim C7 as stated also asks for the invalid index in the error. The format string has
  one argument, the bound: indices 5 and 7 give the same error, and the digit 5 does not
  occur in it.
\<close>

theorem out_of_range_message_omits_index:
  "snd (snd (tensor_check (\<lambda>st. (st, [], Inl StdOutOfRange)) (demo_env 2 4096) fresh_state
               ''add'' ''y'' \<lparr>place_device = 5, data = FP32 [Fin 1]\<rparr>)) =
     Inl (OutOfRange ''GPU dev_id must >=0 and < dev_count=2'') \<and>
   snd (snd (tensor_check (\<lambda>st. (st, [], Inl StdOutOfRange)) (demo_env 2 4096) fresh_state
               ''add'' ''y'' \<lparr>place_device = 7, data = FP32 [Fin 1]\<rparr>)) =
     Inl (OutOfRange ''GPU dev_id must >=0 and < dev_count=2'') \<and>
   CHR ''5'' \<notin> set ''GPU dev_id must >=0 and < dev_count=2''"
  by (simp add: tensor_check_fresh_two TensorCheckerVisitor_apply_def show_nat.simps)

section \<open>Empty buffers\<close>

lemma launch_check_empty:
  "launch_check rnd cast env [] p =
     \<lparr>gpu_str_ptr = p, kernel_launch = (0, threads), kernel_blocks = Some []\<rparr>"
  by (simp add: launch_check_def Let_def CheckNanInfKernel_def threads_def)

text \<open>
  Claim C8. On a buffer of length 0 both checks report clean. The scan kernel is launched
  with 0 blocks: no thread runs, no block enters the reporter, nothing is printed. And
  \<^verbatim>\<open>CudaTensorCheckNanInf\<close> returns false with both counters 0 and no output, for each
  of the three element types it supports.
\<close>

theorem empty_buffer_clean:
  assumes "cuda_calls_succeed cenv"
  shows "CheckNanInfKernel rnd cast sh0 sc (blocks_of 0) threads [] 0 pn dbg = Some [] \<and>
         (\<forall>r. snd (snd (TensorCheckerVisitor_apply rnd cast env st op_type var_name dev [])) = Inr r \<longrightarrow>
               kernel_launch r = (0, threads) \<and> kernel_blocks r = Some []) \<and>
         CudaTensorCheckNanInf cenv op_type var_name \<lparr>place_device = d, data = FP32 []\<rparr> =
           Inr \<lparr>ret = False, nan_inf_num = Some (0, 0), launch = Some (0, threads), printed = []\<rparr> \<and>
         CudaTensorCheckNanInf cenv op_type var_name \<lparr>place_device = d, data = FP64 []\<rparr> =
           Inr \<lparr>ret = False, nan_inf_num = Some (0, 0), launch = Some (0, threads), printed = []\<rparr> \<and>
         CudaTensorCheckNanInf cenv op_type var_name \<lparr>place_device = d, data = INT64 []\<rparr> =
           Inr \<lparr>ret = False, nan_inf_num = Some (0, 0), launch = Some (0, threads), printed = []\<rparr>"
proof (intro conjI allI impI)
  show "CheckNanInfKernel rnd cast sh0 sc (blocks_of 0) threads [] 0 pn dbg = Some []"
    by (simp add: CheckNanInfKernel_def blocks_of_def threads_def)
next
  fix r
  assume "snd (snd (TensorCheckerVisitor_apply rnd cast env st op_type var_name dev [])) = Inr r"
  then have "\<exists>p. r = launch_check rnd cast env [] p"
    by (auto simp: TensorCheckerVisitor_apply_def Let_def split: option.splits if_splits)
  then show "kernel_launch r = (0, threads)" and "kernel_blocks r = Some []"
    by (auto simp: launch_check_empty)
next
  show "CudaTensorCheckNanInf cenv op_type var_name \<lparr>place_device = d, data = FP32 []\<rparr> =
           Inr \<lparr>ret = False, nan_inf_num = Some (0, 0), launch = Some (0, threads), printed = []\<rparr>"
    using assms
    by (simp add: CudaTensorCheckNanInf_def Let_def cuda_calls_succeed_def
        CountNanInfNumKernel_def blocks_of_def threads_def)
  show "CudaTensorCheckNanInf cenv op_type var_name \<lparr>place_device = d, data = FP64 []\<rparr> =
           Inr \<lparr>ret = False, nan_inf_num = Some (0, 0), launch = Some (0, threads), printed = []\<rparr>"
    using assms
    by (simp add: CudaTensorCheckNanInf_def Let_def cuda_calls_succeed_def
        CountNanInfNumKernel_def blocks_of_def threads_def)
  show "CudaTensorCheckNanInf cenv op_type var_name \<lparr>place_device = d, data = INT64 []\<rparr> =
           Inr \<lparr>ret = False, nan_inf_num = Some (0, 0), launch = Some (0, threads), printed = []\<rparr>"
    using assms
    by (simp add: CudaTensorCheckNanInf_def Let_def cuda_calls_succeed_def
        CountNanInfNumKernel_def blocks_of_def threads_def)
qed

theorem empty_buffer_clean_witness:
  "cuda_calls_succeed \<lparr>alloc_ok = True, memset_ok = True, memcpy_ok = True, sync_ok = True\<rparr> \<and>
   CheckNanInfKernel (overflow_round 1000) (\<lambda>x. x) (\<lambda>b. (0, 0, 0)) (\<lambda>b. []) (blocks_of 0) threads [] 0 3 4096 =
     Some [] \<and>
   CudaTensorCheckNanInf \<lparr>alloc_ok = True, memset_ok = True, memcpy_ok = True, sync_ok = True\<rparr>
     ''add'' ''y'' \<lparr>place_device = 0, data = FP32 []\<rparr> =
     Inr \<lparr>ret = False, nan_inf_num = Some (0, 0), launch = Some (0, threads), printed = []\<rparr>"
proof -
  have h: "cuda_calls_succeed
             \<lparr>alloc_ok = True, memset_ok = True, memcpy_ok = True, sync_ok = True\<rparr>"
    by (simp add: cuda_calls_succeed_def)
  from empty_buffer_clean [OF h] h show ?thesis by blast
qed

section \<open>Arithmetic of the stride loops\<close>







lemma remaining_less: "remaining stride numel tid p j \<Longrightarrow> j < numel"
  by (cases p) (simp_all add: visits_def)


section \<open>Pending and visited elements of a block\<close>








lemma done_set_finite [simp]: "finite (done_set vals numel bd gd b f c)"
proof -
  have "done_set vals numel bd gd b f c \<subseteq> {j. j < numel}" by (auto simp: done_set_def)
  then show ?thesis by (rule finite_subset) simp
qed




section \<open>One visit\<close>

lemma print_visit_pcs [simp]: "pcs (print_visit cast vals numel pn i s) = pcs s"
  by (simp add: print_visit_def Let_def split: prod.splits)

lemma print_visit_trapped [simp]: "trapped (print_visit cast vals numel pn i s) = trapped s"
  by (simp add: print_visit_def Let_def split: prod.splits)



lemma counter_pcs [simp]: "counter c (s\<lparr>pcs := f\<rparr>) = counter c s"
  by (cases c) simp_all

lemma counter_out [simp]: "counter c (s\<lparr>out := es\<rparr>) = counter c s"
  by (cases c) simp_all

lemma counter_trapped [simp]: "counter c (s\<lparr>trapped := x\<rparr>) = counter c s"
  by (cases c) simp_all

lemma counter_zeroed [simp]:
  "counter c (s\<lparr>nan_count := 0, inf_count := 0, num_count := 0\<rparr>) = 0"
  by (cases c) simp_all






lemma remaining_past_end: "\<not> i < numel \<Longrightarrow> \<not> remaining stride numel tid (AtLoop i) j"
  by (simp add: visits_def)

lemma shape_not_init: "reporter_shape cast vals numel bd gd b dbg s \<Longrightarrow> pcs s 0 = AtInit \<Longrightarrow> \<not> trapped s"
  by (auto simp: reporter_shape_def)









section \<open>The claim about the reporter\<close>






text \<open>
  A run in which threads 1 to 3 count before thread 0 zeroes the counters: all five NaN
  elements are printed.
\<close>

lemma reporter_unsynchronised_example:
  "length (filter (prints_class [NaN, NaN, NaN, NaN, NaN] CNan)
             (out (PrintNanInfKernel (\<lambda>x. x) [NaN, NaN, NaN, NaN, NaN] 5 3 0 threads 1 0 (0, 0, 0)
                     [1, 1, 2, 2, 3, 3, 0, 0, 4, 4]))) = 5"
  by (simp add: PrintNanInfKernel_def print_init_def print_step_def device_enforce_false_def
      print_visit_def threads_def Let_def classify_def)


text \<open>
  The cast to \<^verbatim>\<open>float\<close> shows in the printed value of a \<^verbatim>\<open>double\<close> buffer: a finite
  element beyond the \<^verbatim>\<open>float\<close> range is counted as finite and printed as an infinity.
\<close>

lemma reporter_prints_cast_value:
  "out (PrintNanInfKernel (cast_float (overflow_round (2 ^ 128))) [Fin (2 ^ 200), NaN] 2 3 0
          threads 1 0 (0, 0, 0) [0, 0]) = [PrintElem 2 0 PInf]"
  by (simp add: PrintNanInfKernel_def print_init_def print_step_def device_enforce_false_def
      print_visit_def threads_def Let_def overflow_round_def)

end
